theory Spec2Isabelle
  imports Complex_Main "HOL-Library.Multiset" "HOL-Library.AList"
begin

section \<open>Data model (internal/models/earthquake.go)\<close>

text \<open>
  A finite \<^verbatim>\<open>float64\<close> is the real number it denotes, so the fields of type
  \<^verbatim>\<open>float64\<close> are of type \<^typ>\<open>real\<close>; the arithmetic on them rounds, see
  \<open>fl64\<close> below.  \<^verbatim>\<open>time.Time\<close> is an instant counted in nanoseconds, an unbounded
  \<^typ>\<open>int\<close>; \<^verbatim>\<open>Time.After\<close> and \<^verbatim>\<open>Time.Before\<close> are the strict orders on it.
  \<^verbatim>\<open>time.Duration\<close> is an \<^verbatim>\<open>int64\<close> count of nanoseconds: an \<^typ>\<open>int\<close> between
  \<open>- 2 ^ 63\<close> and \<open>2 ^ 63 - 1\<close>, with the wrap-around of its arithmetic written out.
\<close>

record Point =
  Lat :: real
  Lon :: real

type_synonym Polygon = "Point list"

record Earthquake =
  ID :: string
  Magnitude :: real
  Location :: string
  Latitude :: real
  Longitude :: real
  Depth :: real
  Time :: int
  Source :: string
  Oceano :: string
  OceanoRegion :: string
  URL :: string

section \<open>Region classifier (internal/geometry)\<close>

record RegionData =
  LatlonCPWorld :: Polygon
  LatlonPacificoLocal :: Polygon
  LatlonPacificoRegional :: Polygon
  LatlonPacificoLocal20Km :: Polygon
  LatlonCCWorld :: "Polygon list"
  LatlonCaribeRegional :: "Polygon list"
  LatlonCaribeLocal :: Polygon
  LatlonCaribeLocalInsular :: Polygon

subsection \<open>The arithmetic of \<^verbatim>\<open>float64\<close>\<close>

text \<open>
  Every \<^verbatim>\<open>float64\<close> operation returns its exact result rounded to the nearest number
  with a significand of 53 bits, a tie going to the even significand: for \<open>x\<close> with
  \<open>2 ^ e \<le> \<bar>x\<bar> < 2 ^ (e + 1)\<close> the spacing of those numbers is \<open>2 ^ (e - 52)\<close>.  The
  exponent is left unbounded, so \<open>fl64\<close> is the rounding of Go wherever Go's result is a
  normal number; overflow to an infinity, the subnormal range and NaN are not modelled.
  Each operation rounds on its own, as the code compiled for amd64 does; Go allows other
  targets to fuse \<^verbatim>\<open>x*y + z\<close> into one rounding.
\<close>

definition round_half_even :: "real \<Rightarrow> int" where
  "round_half_even s =
     (let f = \<lfloor>s\<rfloor> in
      if s - of_int f < 1 / 2 then f
      else if s - of_int f > 1 / 2 then f + 1
      else if even f then f else f + 1)"

definition fl64 :: "real \<Rightarrow> real" where
  "fl64 x =
     (if x = 0 then 0
      else (let e = \<lfloor>log 2 \<bar>x\<bar>\<rfloor> - 52
            in of_int (round_half_even (x / 2 powi e)) * 2 powi e))"

definition float64_add :: "real \<Rightarrow> real \<Rightarrow> real" where
  "float64_add a b = fl64 (a + b)"

definition float64_sub :: "real \<Rightarrow> real \<Rightarrow> real" where
  "float64_sub a b = fl64 (a - b)"

definition float64_mul :: "real \<Rightarrow> real \<Rightarrow> real" where
  "float64_mul a b = fl64 (a * b)"

definition float64_div :: "real \<Rightarrow> real \<Rightarrow> real" where
  "float64_div a b = fl64 (a / b)"

subsection \<open>The functions of polygon.go\<close>

text \<open>
  \<^verbatim>\<open>rayIntersectsSegment\<close>: the early return on the straddle test, then the slope and the
  longitude of the crossing, in the order the source computes them.
\<close>

definition rayIntersectsSegment :: "Point \<Rightarrow> Point \<Rightarrow> Point \<Rightarrow> bool" where
  "rayIntersectsSegment point p1 p2 =
     (if (Lat p1 > Lat point) = (Lat p2 > Lat point) then False
      else (let slope = float64_div (float64_sub (Lon p2) (Lon p1)) (float64_sub (Lat p2) (Lat p1));
                intersectionLon =
                  float64_add (Lon p1) (float64_mul (float64_sub (Lat point) (Lat p1)) slope)
            in Lon point < intersectionLon))"

text \<open>
  The same function with the division made partial: \<open>float_div\<close> has no result on a zero
  divisor, and the edge test has no result when it asks for one.
\<close>

definition float_div :: "real \<Rightarrow> real \<Rightarrow> real option" where
  "float_div a b = (if b = 0 then None else Some (fl64 (a / b)))"

definition rayIntersectsSegment_guarded :: "Point \<Rightarrow> Point \<Rightarrow> Point \<Rightarrow> bool option" where
  "rayIntersectsSegment_guarded point p1 p2 =
     (if (Lat p1 > Lat point) = (Lat p2 > Lat point) then Some False
      else (case float_div (float64_sub (Lon p2) (Lon p1)) (float64_sub (Lat p2) (Lat p1)) of
              None \<Rightarrow> None
            | Some slope \<Rightarrow>
                (let intersectionLon =
                       float64_add (Lon p1) (float64_mul (float64_sub (Lat point) (Lat p1)) slope)
                 in Some (Lon point < intersectionLon))))"

text \<open>
  \<^verbatim>\<open>PointInPolygon\<close>: the loop over \<open>i = 0, ..., n - 1\<close> is a fold over \<open>[0..<n]\<close> that
  carries the counter \<open>intersections\<close>.  Both indices are in range (\<open>n \<ge> 3\<close> there).
\<close>

definition PointInPolygon :: "Point \<Rightarrow> Polygon \<Rightarrow> bool" where
  "PointInPolygon point polygon =
     (if length polygon < 3 then False
      else (let n = length polygon;
                intersections =
                  fold (\<lambda>i acc. if rayIntersectsSegment point (polygon ! i) (polygon ! ((i + 1) mod n))
                                then acc + 1 else acc)
                       [0..<n] (0::nat)
            in intersections mod 2 = 1))"

fun evaluarPuntosMultiples :: "Point \<Rightarrow> Polygon list \<Rightarrow> bool" where
  "evaluarPuntosMultiples point [] = False"
| "evaluarPuntosMultiples point (polygon # polygons) =
     (if PointInPolygon point polygon then True else evaluarPuntosMultiples point polygons)"

definition determinarRegionPacifico :: "RegionData \<Rightarrow> Point \<Rightarrow> string" where
  "determinarRegionPacifico rd point =
     (if PointInPolygon point (LatlonPacificoLocal rd) then ''local''
      else if PointInPolygon point (LatlonPacificoRegional rd) then ''regional''
      else ''lejano'')"

text \<open>
  \<^verbatim>\<open>CategorizeEarthquake\<close> writes the two labels through its pointer argument; the model
  returns the updated record.  The package variable \<^verbatim>\<open>regionData\<close> is a parameter:
  \<open>None\<close> is the nil pointer of a configuration that was never loaded, and then the
  function returns at once and the record is as it was.
\<close>

definition CategorizeEarthquake :: "RegionData option \<Rightarrow> Earthquake \<Rightarrow> Earthquake" where
  "CategorizeEarthquake regionData eq =
     (case regionData of
        None \<Rightarrow> eq
      | Some rd \<Rightarrow>
         (let point = \<lparr>Lat = Latitude eq, Lon = Longitude eq\<rparr> in
          if PointInPolygon point (LatlonCPWorld rd)
            then eq\<lparr>Oceano := ''Pacifico'', OceanoRegion := determinarRegionPacifico rd point\<rparr>
          else if PointInPolygon point (LatlonPacificoLocal rd)
            then eq\<lparr>Oceano := ''Pacifico'', OceanoRegion := ''local''\<rparr>
          else if length (LatlonPacificoRegional rd) > 0
                  \<and> PointInPolygon point (LatlonPacificoRegional rd)
            then eq\<lparr>Oceano := ''Pacifico'', OceanoRegion := ''regional''\<rparr>
          else if length (LatlonPacificoLocal20Km rd) > 0
                  \<and> PointInPolygon point (LatlonPacificoLocal20Km rd)
            then eq\<lparr>Oceano := ''Pacifico'', OceanoRegion := ''local''\<rparr>
          else if evaluarPuntosMultiples point (LatlonCCWorld rd)
            then eq\<lparr>Oceano := ''Caribe'', OceanoRegion := ''lejano''\<rparr>
          else if evaluarPuntosMultiples point (LatlonCaribeRegional rd)
            then eq\<lparr>Oceano := ''Caribe'', OceanoRegion := ''regional''\<rparr>
          else if PointInPolygon point (LatlonCaribeLocal rd)
                  \<or> PointInPolygon point (LatlonCaribeLocalInsular rd)
            then eq\<lparr>Oceano := ''Caribe'', OceanoRegion := ''local''\<rparr>
          else eq\<lparr>Oceano := ''Uncategorized'', OceanoRegion := ''Uncategorized''\<rparr>))"

subsection \<open>The classifier as the specification words it\<close>








text \<open>
  The decision list of the specification: the checks in their order, each with the labels
  it assigns; the first check that holds decides.
\<close>

fun first_match :: "(bool \<times> 'a) list \<Rightarrow> 'a \<Rightarrow> 'a" where
  "first_match [] d = d"
| "first_match ((c, r) # rest) d = (if c then r else first_match rest d)"

definition spec_decision_list :: "RegionData \<Rightarrow> Point \<Rightarrow> (bool \<times> string \<times> string) list" where
  "spec_decision_list rd p =
     [(PointInPolygon p (LatlonCPWorld rd),
         (''Pacifico'',
          first_match [(PointInPolygon p (LatlonPacificoLocal rd), ''local''),
                       (PointInPolygon p (LatlonPacificoRegional rd), ''regional'')] ''lejano'')),
      (PointInPolygon p (LatlonPacificoLocal rd), (''Pacifico'', ''local'')),
      (PointInPolygon p (LatlonPacificoRegional rd), (''Pacifico'', ''regional'')),
      (PointInPolygon p (LatlonPacificoLocal20Km rd), (''Pacifico'', ''local'')),
      (list_ex (PointInPolygon p) (LatlonCCWorld rd), (''Caribe'', ''lejano'')),
      (list_ex (PointInPolygon p) (LatlonCaribeRegional rd), (''Caribe'', ''regional'')),
      (PointInPolygon p (LatlonCaribeLocal rd) \<or> PointInPolygon p (LatlonCaribeLocalInsular rd),
         (''Caribe'', ''local''))]"

definition spec_classify :: "RegionData \<Rightarrow> Point \<Rightarrow> string \<times> string" where
  "spec_classify rd p = first_match (spec_decision_list rd p) (''Uncategorized'', ''Uncategorized'')"

section \<open>Event manager (internal/manager/earthquake_manager.go)\<close>

text \<open>
  The index \<^verbatim>\<open>map[string]Earthquake\<close> is an association list: its order stands for the
  order in which one run of the program happens to range over the map, which Go leaves
  open, so the theorems below hold for every order.  The channel \<^verbatim>\<open>newEarthquakeChan\<close>
  is its buffer, oldest element first; it is made with capacity 100 and never closed.
  Every method holds the manager's lock for its whole body, so each is one step on the
  state: it takes the manager and returns the manager it leaves behind.
\<close>

record EarthquakeManager =
  earthquakes :: "(string \<times> Earthquake) list"
  maxAge :: int
  newEarthquakeChan :: "Earthquake list"

definition newEarthquakeChan_cap :: nat where
  "newEarthquakeChan_cap = 100"

definition NewEarthquakeManager :: "int \<Rightarrow> EarthquakeManager" where
  "NewEarthquakeManager age = \<lparr>earthquakes = [], maxAge = age, newEarthquakeChan = []\<rparr>"

text \<open>
  A \<^verbatim>\<open>select\<close> with one send and a \<^verbatim>\<open>default\<close>: the send happens when the buffer has
  room, otherwise the default branch runs and nothing is sent.
\<close>

definition select_send_default :: "nat \<Rightarrow> 'a \<Rightarrow> 'a list \<Rightarrow> 'a list" where
  "select_send_default capacity x buffer =
     (if length buffer < capacity then buffer @ [x] else buffer)"

definition AddEarthquake ::
  "RegionData option \<Rightarrow> EarthquakeManager \<Rightarrow> Earthquake \<Rightarrow> EarthquakeManager \<times> bool" where
  "AddEarthquake regionData em eq0 =
     (case map_of (earthquakes em) (ID eq0) of
        Some existing \<Rightarrow> (em, False)
      | None \<Rightarrow>
         (let eq = CategorizeEarthquake regionData eq0 in
          if Oceano eq = '''' \<or> Oceano eq = ''Uncategorized''
             \<or> OceanoRegion eq = '''' \<or> OceanoRegion eq = ''Uncategorized''
          then (em, False)
          else (em\<lparr>earthquakes := AList.update (ID eq) eq (earthquakes em),
                   newEarthquakeChan :=
                     select_send_default newEarthquakeChan_cap eq (newEarthquakeChan em)\<rparr>,
                True)))"

fun AddEarthquakes_loop ::
  "RegionData option \<Rightarrow> Earthquake list \<Rightarrow> EarthquakeManager \<Rightarrow> Earthquake list
     \<Rightarrow> EarthquakeManager \<times> Earthquake list" where
  "AddEarthquakes_loop regionData [] em newOnes = (em, newOnes)"
| "AddEarthquakes_loop regionData (eq # rest) em newOnes =
     (case AddEarthquake regionData em eq of
        (em', True) \<Rightarrow> AddEarthquakes_loop regionData rest em' (newOnes @ [eq])
      | (em', False) \<Rightarrow> AddEarthquakes_loop regionData rest em' newOnes)"

definition AddEarthquakes ::
  "RegionData option \<Rightarrow> EarthquakeManager \<Rightarrow> Earthquake list
     \<Rightarrow> EarthquakeManager \<times> Earthquake list" where
  "AddEarthquakes regionData em eqs = AddEarthquakes_loop regionData eqs em []"

text \<open>The label test that \<^verbatim>\<open>GetAll\<close> and \<^verbatim>\<open>GetCount\<close> both spell out.\<close>

definition categorized :: "Earthquake \<Rightarrow> bool" where
  "categorized eq =
     (Oceano eq \<noteq> '''' \<and> Oceano eq \<noteq> ''Uncategorized''
      \<and> OceanoRegion eq \<noteq> '''' \<and> OceanoRegion eq \<noteq> ''Uncategorized'')"

text \<open>
  \<^verbatim>\<open>sort.Slice\<close> belongs to Go's standard library: it orders the slice by the given
  \<^verbatim>\<open>less\<close> and promises nothing about elements that \<^verbatim>\<open>less\<close> does not separate.
  Insertion sort stands for it; no theorem below depends on how ties fall.
\<close>

fun sort_insert :: "('a \<Rightarrow> 'a \<Rightarrow> bool) \<Rightarrow> 'a \<Rightarrow> 'a list \<Rightarrow> 'a list" where
  "sort_insert less_fn x [] = [x]"
| "sort_insert less_fn x (y # ys) =
     (if less_fn y x then y # sort_insert less_fn x ys else x # y # ys)"

definition sort_Slice :: "('a \<Rightarrow> 'a \<Rightarrow> bool) \<Rightarrow> 'a list \<Rightarrow> 'a list" where
  "sort_Slice less_fn xs = foldr (sort_insert less_fn) xs []"

definition time_After :: "Earthquake \<Rightarrow> Earthquake \<Rightarrow> bool" where
  "time_After a b = (Time a > Time b)"

definition GetAll :: "EarthquakeManager \<Rightarrow> Earthquake list" where
  "GetAll em = sort_Slice time_After (filter categorized (map snd (earthquakes em)))"

definition GetByOceano :: "EarthquakeManager \<Rightarrow> string \<Rightarrow> Earthquake list" where
  "GetByOceano em oceano =
     sort_Slice time_After (filter (\<lambda>eq. Oceano eq = oceano) (map snd (earthquakes em)))"

definition GetByRegion :: "EarthquakeManager \<Rightarrow> string \<Rightarrow> Earthquake list" where
  "GetByRegion em region =
     sort_Slice time_After (filter (\<lambda>eq. OceanoRegion eq = region) (map snd (earthquakes em)))"

definition GetByTimeRange :: "EarthquakeManager \<Rightarrow> int \<Rightarrow> int \<Rightarrow> Earthquake list" where
  "GetByTimeRange em start finish =
     sort_Slice time_After
       (filter (\<lambda>eq. Time eq > start \<and> Time eq < finish) (map snd (earthquakes em)))"

definition GetCount :: "EarthquakeManager \<Rightarrow> nat" where
  "GetCount em =
     fold (\<lambda>eq count. if categorized eq then count + 1 else count) (map snd (earthquakes em)) 0"

text \<open>
  The unary minus of \<^verbatim>\<open>time.Duration\<close>, an \<^verbatim>\<open>int64\<close>: it wraps, and the least value
  \<open>- 2 ^ 63\<close> is its own negation.
\<close>

definition Duration_neg :: "int \<Rightarrow> int" where
  "Duration_neg d = (2 ^ 63 - d) mod 2 ^ 64 - 2 ^ 63"

text \<open>
  \<^verbatim>\<open>CleanOld\<close> ranges over the map and deletes from it as it goes; \<open>now\<close> is the
  reading of \<^verbatim>\<open>time.Now()\<close>, and the cutoff is \<^verbatim>\<open>time.Now().Add(-em.maxAge)\<close>.
\<close>

definition CleanOld :: "int \<Rightarrow> EarthquakeManager \<Rightarrow> EarthquakeManager \<times> nat" where
  "CleanOld now em =
     (let cutoff = now + Duration_neg (maxAge em);
          (m, removed) =
             fold (\<lambda>(eid, eq) (m, removed).
                     if Time eq < cutoff then (AList.delete eid m, removed + 1) else (m, removed))
                  (earthquakes em) (earthquakes em, 0::nat)
      in (em\<lparr>earthquakes := m\<rparr>, removed))"

text \<open>
  The states the manager can reach: from a fresh manager, by ingestion, by eviction at
  any instant, and by the consumer taking the oldest element of the new-event stream.
\<close>

inductive reachable :: "RegionData option \<Rightarrow> EarthquakeManager \<Rightarrow> bool"
  for regionData :: "RegionData option" where
  reach_new: "reachable regionData (NewEarthquakeManager age)"
| reach_add: "reachable regionData em \<Longrightarrow> reachable regionData (fst (AddEarthquake regionData em eq))"
| reach_add_many:
    "reachable regionData em \<Longrightarrow> reachable regionData (fst (AddEarthquakes regionData em eqs))"
| reach_clean: "reachable regionData em \<Longrightarrow> reachable regionData (fst (CleanOld now em))"
| reach_receive:
    "reachable regionData em \<Longrightarrow> newEarthquakeChan em = eq # rest
       \<Longrightarrow> reachable regionData (em\<lparr>newEarthquakeChan := rest\<rparr>)"

text \<open>
  What every reachable index satisfies: one entry per key, each entry filed under its own
  identifier, labelled, and carrying the labels the classifier gives it.
\<close>

definition store_inv :: "RegionData option \<Rightarrow> EarthquakeManager \<Rightarrow> bool" where
  "store_inv regionData em =
     (distinct (map fst (earthquakes em))
      \<and> list_all (\<lambda>(k, e). k = ID e \<and> categorized e \<and> CategorizeEarthquake regionData e = e)
           (earthquakes em))"

section \<open>Notification hub (package websocket)\<close>

text \<open>
  A \<^verbatim>\<open>*Client\<close> is the address of a client object, a natural number.  The hub's
  \<^verbatim>\<open>clients\<close> map (its values are always \<^verbatim>\<open>true\<close>) is the list of its keys, in the order
  one run ranges over them; \<open>send\<close> is the store that gives each client object its
  \<^verbatim>\<open>send\<close> channel, a buffer (oldest first) and the flag that the channel was closed.
  Both the \<^verbatim>\<open>send\<close> channels and \<^verbatim>\<open>broadcast\<close> are made with capacity 256.  Sending on
  a closed channel and closing a closed channel panic in Go; a panic is the left summand
  of the result.  The connection, the timers and the two pump goroutines of a client are
  not part of the model.
\<close>

record byte_chan =
  buffer :: "string list"
  closed :: bool

record HubState =
  clients :: "nat list"
  broadcast :: "string list"
  send :: "nat \<Rightarrow> byte_chan"

record Message =
  Type :: string
  Data :: Earthquake

datatype panic = SendOnClosedChannel | CloseOfClosedChannel

definition send_cap :: nat where
  "send_cap = 256"

definition broadcast_cap :: nat where
  "broadcast_cap = 256"

text \<open>
  The three cases of the \<^verbatim>\<open>select\<close> in \<^verbatim>\<open>Hub.Run\<close>, each as the step the control loop
  takes when that case is chosen.  The broadcast case takes the oldest payload of
  \<^verbatim>\<open>h.broadcast\<close> (\<open>None\<close> when there is none to take) and ranges over the clients.
\<close>

definition NewHub :: "(nat \<Rightarrow> byte_chan) \<Rightarrow> HubState" where
  "NewHub heap = \<lparr>clients = [], broadcast = [], send = heap\<rparr>"

definition Run_register :: "nat \<Rightarrow> HubState \<Rightarrow> HubState" where
  "Run_register client h =
     h\<lparr>clients := (if client \<in> set (clients h) then clients h else clients h @ [client])\<rparr>"

definition Run_unregister :: "nat \<Rightarrow> HubState \<Rightarrow> panic + HubState" where
  "Run_unregister client h =
     (if client \<in> set (clients h)
      then (if closed (send h client) then Inl CloseOfClosedChannel
            else Inr (h\<lparr>clients := removeAll client (clients h),
                       send := (send h)(client := (send h client)\<lparr>closed := True\<rparr>)\<rparr>))
      else Inr h)"

fun Run_broadcast_loop :: "string \<Rightarrow> nat list \<Rightarrow> HubState \<Rightarrow> panic + HubState" where
  "Run_broadcast_loop message [] h = Inr h"
| "Run_broadcast_loop message (client # rest) h =
     (if closed (send h client) then Inl SendOnClosedChannel
      else if length (buffer (send h client)) < send_cap
        then Run_broadcast_loop message rest
               (h\<lparr>send := (send h)(client :=
                              (send h client)\<lparr>buffer := buffer (send h client) @ [message]\<rparr>)\<rparr>)
      else Run_broadcast_loop message rest
             (h\<lparr>send := (send h)(client := (send h client)\<lparr>closed := True\<rparr>),
                clients := removeAll client (clients h)\<rparr>))"

definition Run_broadcast :: "HubState \<Rightarrow> (panic + HubState) option" where
  "Run_broadcast h =
     (case broadcast h of
        [] \<Rightarrow> None
      | message # rest \<Rightarrow> Some (Run_broadcast_loop message (clients h) (h\<lparr>broadcast := rest\<rparr>)))"

text \<open>
  \<^verbatim>\<open>ServeWs\<close> makes a client object with a new, empty, open channel at the address
  \<open>client\<close> and registers it.
\<close>

definition ServeWs :: "nat \<Rightarrow> HubState \<Rightarrow> HubState" where
  "ServeWs client h =
     Run_register client (h\<lparr>send := (send h)(client := \<lparr>buffer = [], closed = False\<rparr>)\<rparr>)"

text \<open>
  \<^verbatim>\<open>BroadcastEarthquake\<close>: \<^verbatim>\<open>json.Marshal\<close> is a parameter, \<open>None\<close> its error, after which
  the function logs and returns.  The send on \<^verbatim>\<open>h.broadcast\<close> waits while the buffer is
  full; the result \<open>None\<close> stands for a caller that is still waiting.
\<close>

definition BroadcastEarthquake ::
  "(Message \<Rightarrow> string option) \<Rightarrow> Earthquake \<Rightarrow> HubState \<Rightarrow> HubState option" where
  "BroadcastEarthquake json_Marshal eq h =
     (let message = \<lparr>Type = ''new_earthquake'', Data = eq\<rparr> in
      case json_Marshal message of
        None \<Rightarrow> Some h
      | Some data \<Rightarrow>
          if length (broadcast h) < broadcast_cap then Some (h\<lparr>broadcast := broadcast h @ [data]\<rparr>)
          else None)"

text \<open>
  What the control loop maintains: a client is in the active set once, and the channel of
  an active client is open.
\<close>

definition hub_inv :: "HubState \<Rightarrow> bool" where
  "hub_inv h = (distinct (clients h) \<and> list_all (\<lambda>c. \<not> closed (send h c)) (clients h))"

definition has_room :: "HubState \<Rightarrow> nat \<Rightarrow> bool" where
  "has_room h c = (length (buffer (send h c)) < send_cap)"

text \<open>
  The broadcast as the specification words it: every active session whose queue has room
  gets the payload at the end of its queue and stays; every active session whose queue is
  full is removed from the active set and its queue is closed; nothing else changes.
\<close>

definition spec_broadcast :: "string \<Rightarrow> HubState \<Rightarrow> HubState" where
  "spec_broadcast payload h =
     h\<lparr>clients := filter (has_room h) (clients h),
       send := (\<lambda>c. if c \<in> set (clients h)
                     then (if has_room h c
                           then (send h c)\<lparr>buffer := buffer (send h c) @ [payload]\<rparr>
                           else (send h c)\<lparr>closed := True\<rparr>)
                     else send h c)\<rparr>"

text \<open>
  The states of the hub: a new hub, a connection served at a fresh address, the steps of
  the control loop that do not panic, a producer's payload queued, and a client's writer
  taking the oldest payload of its queue.
\<close>

inductive hub_reachable :: "HubState \<Rightarrow> bool" where
  hub_new: "hub_reachable (NewHub heap)"
| hub_serve: "hub_reachable h \<Longrightarrow> client \<notin> set (clients h) \<Longrightarrow> hub_reachable (ServeWs client h)"
| hub_unregister:
    "hub_reachable h \<Longrightarrow> Run_unregister client h = Inr h' \<Longrightarrow> hub_reachable h'"
| hub_broadcast: "hub_reachable h \<Longrightarrow> Run_broadcast h = Some (Inr h') \<Longrightarrow> hub_reachable h'"
| hub_enqueue:
    "hub_reachable h \<Longrightarrow> BroadcastEarthquake json_Marshal eq h = Some h' \<Longrightarrow> hub_reachable h'"
| hub_deliver:
    "hub_reachable h \<Longrightarrow> buffer (send h client) = payload # rest
       \<Longrightarrow> hub_reachable (h\<lparr>send := (send h)(client := (send h client)\<lparr>buffer := rest\<rparr>)\<rparr>)"

section \<open>Fixtures\<close>

text \<open>The square of the specification's examples, its vertices as (latitude, longitude).\<close>

definition square :: Polygon where
  "square = [\<lparr>Lat = 0, Lon = 0\<rparr>, \<lparr>Lat = 0, Lon = 10\<rparr>,
             \<lparr>Lat = 10, Lon = 10\<rparr>, \<lparr>Lat = 10, Lon = 0\<rparr>]"





text \<open>
  A configuration in which the square is both the Pacific local polygon and a polygon of
  the Caribbean regional group, and nothing else is configured.
\<close>

definition fixture_regions :: RegionData where
  "fixture_regions =
     \<lparr>LatlonCPWorld = [], LatlonPacificoLocal = square, LatlonPacificoRegional = [],
      LatlonPacificoLocal20Km = [], LatlonCCWorld = [], LatlonCaribeRegional = [square],
      LatlonCaribeLocal = [], LatlonCaribeLocalInsular = []\<rparr>"

text \<open>A record as a feed produces it: identifier, position and instant, no labels.\<close>

definition quake :: "string \<Rightarrow> real \<Rightarrow> real \<Rightarrow> int \<Rightarrow> Earthquake" where
  "quake i la lo t =
     \<lparr>ID = i, Magnitude = 5, Location = '''', Latitude = la, Longitude = lo, Depth = 10,
      Time = t, Source = ''USGS'', Oceano = '''', OceanoRegion = '''', URL = ''''\<rparr>"

text \<open>A manager whose new-event stream is full: one hundred records wait in the buffer.\<close>

definition full_manager :: EarthquakeManager where
  "full_manager =
     \<lparr>earthquakes = [], maxAge = 0, newEarthquakeChan = replicate 100 (quake ''z'' 5 5 0)\<rparr>"

text \<open>Go's \<^verbatim>\<open>24 * time.Hour\<close>, in nanoseconds.\<close>

definition days :: "int \<Rightarrow> int" where
  "days n = n * 24 * 3600 * 1000000000"

text \<open>
  A manager that keeps records for seven days and holds one record stamped eight days before
  \<open>now\<close> and one stamped six days before it.
\<close>

definition week_manager :: "int \<Rightarrow> EarthquakeManager" where
  "week_manager now =
     \<lparr>earthquakes = [(''old'', quake ''old'' 5 5 (now - days 8)),
                     (''recent'', quake ''recent'' 5 5 (now - days 6))],
      maxAge = days 7, newEarthquakeChan = []\<rparr>"

text \<open>
  A manager made with the least \<^verbatim>\<open>time.Duration\<close>, \<^verbatim>\<open>math.MinInt64\<close> nanoseconds, that
  holds one record stamped eight days before \<open>now\<close>.
\<close>

definition least_age_manager :: "int \<Rightarrow> EarthquakeManager" where
  "least_age_manager now =
     \<lparr>earthquakes = [(''old'', quake ''old'' 5 5 (now - days 8))],
      maxAge = - (2 ^ 63), newEarthquakeChan = []\<rparr>"

text \<open>
  A fresh manager after one batch of three records, handed over in the order of the
  instants 2, 3, 1.
\<close>

definition three_manager :: EarthquakeManager where
  "three_manager =
     fst (AddEarthquakes (Some fixture_regions) (NewEarthquakeManager 0)
            [quake ''t2'' 5 5 2, quake ''t3'' 5 5 3, quake ''t1'' 5 5 1])"

text \<open>A fresh manager after one accepted record.\<close>

definition one_manager :: EarthquakeManager where
  "one_manager =
     fst (AddEarthquake (Some fixture_regions) (NewEarthquakeManager 0) (quake ''a'' 5 5 0))"

text \<open>
  Three active sessions, the second with a full queue, and a stand-in for
  \<^verbatim>\<open>json.Marshal\<close>.
\<close>

definition three_sessions :: HubState where
  "three_sessions =
     \<lparr>clients = [1, 2, 3], broadcast = [],
      send = (\<lambda>c. if c = 2 then \<lparr>buffer = replicate 256 ''backlog'', closed = False\<rparr>
                   else \<lparr>buffer = [], closed = False\<rparr>)\<rparr>"

definition fixture_marshal :: "Message \<Rightarrow> string option" where
  "fixture_marshal m = Some (Type m @ '':'' @ ID (Data m))"

section \<open>Rounding\<close>

lemma fl64_0: "fl64 0 = 0"
  by (simp add: fl64_def)


lemma round_half_even_of_int: "round_half_even (of_int n) = n"
  by (simp add: round_half_even_def)


lemma fl64_nonzero:
  assumes "x \<noteq> 0"
  shows "fl64 x \<noteq> 0"
proof -
  define e where "e = \<lfloor>log 2 \<bar>x\<bar>\<rfloor>"
  define s where "s = x / 2 powi (e - 52)"
  from assms have pos: "0 < \<bar>x\<bar>" by simp
  have "(2::real) powr real_of_int e = 2 powi e"
    using powr_real_of_int' [of "2::real" e] by simp
  moreover have "2 powr real_of_int e \<le> \<bar>x\<bar>"
    using floor_log_eq_powr_iff [of "\<bar>x\<bar>" 2 e] pos by (simp add: e_def)
  ultimately have low: "2 powi e \<le> \<bar>x\<bar>"
    by simp
  have "(2::real) powi e = 2 ^ 52 * 2 powi (e - 52)"
    using power_int_add [of "2::real" 52 "e - 52"] by simp
  with low have "2 ^ 52 * 2 powi (e - 52) \<le> \<bar>x\<bar>"
    by simp
  then have "2 ^ 52 \<le> \<bar>x\<bar> / 2 powi (e - 52)"
    by (simp add: pos_le_divide_eq)
  then have big: "2 ^ 52 \<le> \<bar>s\<bar>"
    by (simp add: s_def abs_divide)
  define f where "f = \<lfloor>s\<rfloor>"
  have near: "round_half_even s = f \<or> round_half_even s = f + 1"
    by (simp add: round_half_even_def Let_def f_def)
  have "round_half_even s \<noteq> 0"
  proof (cases "0 \<le> s")
    case True
    with big have "(2::real) ^ 52 \<le> s" by simp
    then have "(2::int) ^ 52 \<le> f"
      unfolding f_def by (simp add: le_floor_iff)
    with near show ?thesis
      by auto
  next
    case False
    with big have "s \<le> - ((2::real) ^ 52)" by simp
    then have "f \<le> - ((2::int) ^ 52)"
      unfolding f_def by (simp add: floor_le_iff)
    with near show ?thesis
      by auto
  qed
  then show ?thesis
    using assms by (simp add: fl64_def Let_def e_def s_def)
qed

lemma fl64_of_int:
  assumes "\<bar>k\<bar> < 2 ^ 53"
  shows "fl64 (of_int k) = of_int k"
proof (cases "k = 0")
  case True
  then show ?thesis by (simp add: fl64_0)
next
  case False
  define e where "e = \<lfloor>log 2 \<bar>real_of_int k\<bar>\<rfloor>"
  from False have pos: "0 < \<bar>real_of_int k\<bar>" by simp
  from assms have "\<bar>real_of_int k\<bar> < 2 ^ 53"
    by (metis of_int_abs of_int_less_iff of_int_numeral of_int_power)
  then have "\<bar>real_of_int k\<bar> < 2 powr 53"
    by simp
  then have "log 2 \<bar>real_of_int k\<bar> < 53"
    using pos by (simp add: log_less_iff)
  then have "e < 53"
    by (simp add: e_def floor_less_iff)
  then have small: "e \<le> 52" by simp
  have "(2::real) powi (e - 52) = 1 / 2 ^ nat (52 - e)"
    using small power_int_minus [of "2::real" "52 - e"] by (simp add: power_int_def field_simps)
  then have scaled: "real_of_int k / 2 powi (e - 52) = of_int (k * 2 ^ nat (52 - e))"
    by simp
  have "fl64 (of_int k) = of_int (round_half_even (real_of_int k / 2 powi (e - 52))) * 2 powi (e - 52)"
    using False by (simp add: fl64_def Let_def e_def)
  also have "\<dots> = of_int (k * 2 ^ nat (52 - e)) * 2 powi (e - 52)"
    unfolding scaled round_half_even_of_int ..
  also have "\<dots> = of_int k"
    using \<open>(2::real) powi (e - 52) = 1 / 2 ^ nat (52 - e)\<close> by simp
  finally show ?thesis .
qed

lemma fl64_numeral [simp]: "numeral w < (2::int) ^ 53 \<Longrightarrow> fl64 (numeral w) = numeral w"
  using fl64_of_int [of "numeral w"] by simp

lemma fl64_neg_numeral [simp]: "numeral w < (2::int) ^ 53 \<Longrightarrow> fl64 (- numeral w) = - numeral w"
  using fl64_of_int [of "- numeral w"] by simp

lemma fl64_1 [simp]: "fl64 1 = 1"
  using fl64_of_int [of 1] by simp










section \<open>Point in polygon\<close>

lemma fold_counter:
  "fold (\<lambda>i acc. if P i then acc + 1 else acc) xs (a::nat) = a + length (filter P xs)"
  by (induction xs arbitrary: a) simp_all







lemma upt_4: "[0..<4] = [0, 1, 2, 3]"
  by (simp add: upt_rec)

lemma length_square: "length square = 4"
  by (simp add: square_def)

lemmas float64_ops = float64_add_def float64_sub_def float64_mul_def float64_div_def

lemma square_inside: "PointInPolygon \<lparr>Lat = 5, Lon = 5\<rparr> square"
  unfolding PointInPolygon_def length_square Let_def upt_4
  by (simp add: square_def rayIntersectsSegment_def float64_ops fl64_0)

lemma square_outside: "\<not> PointInPolygon \<lparr>Lat = 15, Lon = 15\<rparr> square"
  unfolding PointInPolygon_def length_square Let_def upt_4
  by (simp add: square_def rayIntersectsSegment_def)











section \<open>The division in the edge test\<close>

lemma straddle_denominator:
  "(Lat p1 > Lat point) \<noteq> (Lat p2 > Lat point) \<Longrightarrow> Lat p2 - Lat p1 \<noteq> 0"
  by auto

lemma straddle_denominator_float64:
  "(Lat p1 > Lat point) \<noteq> (Lat p2 > Lat point) \<Longrightarrow> float64_sub (Lat p2) (Lat p1) \<noteq> 0"
  unfolding float64_sub_def by (rule fl64_nonzero) (rule straddle_denominator)

lemma rayIntersectsSegment_guarded_total:
  "rayIntersectsSegment_guarded point p1 p2 = Some (rayIntersectsSegment point p1 p2)"
proof (cases "(Lat p1 > Lat point) = (Lat p2 > Lat point)")
  case True
  then show ?thesis
    by (simp add: rayIntersectsSegment_guarded_def rayIntersectsSegment_def)
next
  case False
  then have "float64_sub (Lat p2) (Lat p1) \<noteq> 0"
    by (rule straddle_denominator_float64)
  with False show ?thesis
    by (simp add: rayIntersectsSegment_guarded_def rayIntersectsSegment_def float_div_def
        float64_div_def Let_def)
qed

text \<open>
  Claim C10.  The slope is divided only after the straddle test has passed, and then the
  two latitudes differ and so does their rounded difference: the divisor is never zero,
  the edge test always has a result (the one \<^verbatim>\<open>rayIntersectsSegment\<close> gives), and a
  horizontal edge is rejected by the straddle test, before any division.
\<close>

theorem rayIntersectsSegment_never_divides_by_zero:
  "rayIntersectsSegment_guarded point p1 p2 = Some (rayIntersectsSegment point p1 p2)
   \<and> ((Lat p1 > Lat point) \<noteq> (Lat p2 > Lat point) \<longrightarrow> Lat p2 - Lat p1 \<noteq> 0)
   \<and> ((Lat p1 > Lat point) \<noteq> (Lat p2 > Lat point)
        \<longrightarrow> float_div (Lon p2 - Lon p1) (Lat p2 - Lat p1) \<noteq> None)
   \<and> ((Lat p1 > Lat point) \<noteq> (Lat p2 > Lat point) \<longrightarrow> float64_sub (Lat p2) (Lat p1) \<noteq> 0)
   \<and> ((Lat p1 > Lat point) \<noteq> (Lat p2 > Lat point)
        \<longrightarrow> float_div (float64_sub (Lon p2) (Lon p1)) (float64_sub (Lat p2) (Lat p1)) \<noteq> None)
   \<and> (Lat p1 = Lat p2 \<longrightarrow> (Lat p1 > Lat point) = (Lat p2 > Lat point)
        \<and> rayIntersectsSegment_guarded point p1 p2 = Some False)"
proof -
  have "(Lat p1 > Lat point) \<noteq> (Lat p2 > Lat point)
          \<longrightarrow> float_div (Lon p2 - Lon p1) (Lat p2 - Lat p1) \<noteq> None"
    using straddle_denominator [of point p1 p2] by (simp add: float_div_def)
  moreover have "(Lat p1 > Lat point) \<noteq> (Lat p2 > Lat point)
          \<longrightarrow> float_div (float64_sub (Lon p2) (Lon p1)) (float64_sub (Lat p2) (Lat p1)) \<noteq> None"
    using straddle_denominator_float64 [of point p1 p2] by (simp add: float_div_def)
  moreover have "Lat p1 = Lat p2 \<longrightarrow> (Lat p1 > Lat point) = (Lat p2 > Lat point)
                   \<and> rayIntersectsSegment_guarded point p1 p2 = Some False"
    by (simp add: rayIntersectsSegment_guarded_def)
  moreover have "(Lat p1 > Lat point) \<noteq> (Lat p2 > Lat point) \<longrightarrow> Lat p2 - Lat p1 \<noteq> 0"
    using straddle_denominator [of point p1 p2] by blast
  moreover have "(Lat p1 > Lat point) \<noteq> (Lat p2 > Lat point)
                   \<longrightarrow> float64_sub (Lat p2) (Lat p1) \<noteq> 0"
    using straddle_denominator_float64 [of point p1 p2] by blast
  moreover note rayIntersectsSegment_guarded_total [of point p1 p2]
  ultimately show ?thesis
    by (intro conjI)
qed

theorem rayIntersectsSegment_never_divides_by_zero_witness:
  "rayIntersectsSegment_guarded \<lparr>Lat = 5, Lon = 5\<rparr> \<lparr>Lat = 0, Lon = 10\<rparr> \<lparr>Lat = 10, Lon = 10\<rparr> = Some True
   \<and> float_div (10 - 10) (10 - 0) = Some 0
   \<and> float64_sub 10 0 = 10
   \<and> rayIntersectsSegment_guarded \<lparr>Lat = 5, Lon = 5\<rparr> \<lparr>Lat = 0, Lon = 0\<rparr> \<lparr>Lat = 0, Lon = 10\<rparr> = Some False"
proof -
  have straddle: "(Lat \<lparr>Lat = 0, Lon = (10::real)\<rparr> > Lat \<lparr>Lat = 5, Lon = (5::real)\<rparr>)
                    \<noteq> (Lat \<lparr>Lat = 10, Lon = (10::real)\<rparr> > Lat \<lparr>Lat = 5, Lon = (5::real)\<rparr>)"
    by simp
  have horizontal: "Lat \<lparr>Lat = 0, Lon = (0::real)\<rparr> = Lat \<lparr>Lat = 0, Lon = (10::real)\<rparr>"
    by simp
  have "rayIntersectsSegment_guarded \<lparr>Lat = 5, Lon = 5\<rparr> \<lparr>Lat = 0, Lon = 10\<rparr> \<lparr>Lat = 10, Lon = 10\<rparr>
          = Some True"
    using rayIntersectsSegment_never_divides_by_zero
      [of "\<lparr>Lat = 5, Lon = 5\<rparr>" "\<lparr>Lat = 0, Lon = 10\<rparr>" "\<lparr>Lat = 10, Lon = 10\<rparr>"] straddle
    by (simp add: rayIntersectsSegment_def float64_ops fl64_0)
  moreover have "float_div (10 - 10) (10 - 0) = Some 0"
    by (simp add: float_div_def fl64_0)
  moreover have "float64_sub 10 0 = 10"
    by (simp add: float64_sub_def)
  moreover have "rayIntersectsSegment_guarded \<lparr>Lat = 5, Lon = 5\<rparr> \<lparr>Lat = 0, Lon = 0\<rparr> \<lparr>Lat = 0, Lon = 10\<rparr>
                   = Some False"
    using rayIntersectsSegment_never_divides_by_zero
      [of "\<lparr>Lat = 5, Lon = 5\<rparr>" "\<lparr>Lat = 0, Lon = 0\<rparr>" "\<lparr>Lat = 0, Lon = 10\<rparr>"] horizontal
    by blast
  ultimately show ?thesis
    by blast
qed

section \<open>Classification\<close>

lemma evaluarPuntosMultiples_list_ex:
  "evaluarPuntosMultiples point polygons = list_ex (PointInPolygon point) polygons"
  by (induction polygons) simp_all

lemma PointInPolygon_nonempty:
  "(polygon \<noteq> [] \<and> PointInPolygon point polygon) = PointInPolygon point polygon"
  by (auto simp: PointInPolygon_def)

lemma CategorizeEarthquake_spec_classify:
  "CategorizeEarthquake (Some rd) eq =
     eq\<lparr>Oceano := fst (spec_classify rd \<lparr>Lat = Latitude eq, Lon = Longitude eq\<rparr>),
        OceanoRegion := snd (spec_classify rd \<lparr>Lat = Latitude eq, Lon = Longitude eq\<rparr>)\<rparr>"
  by (simp add: CategorizeEarthquake_def spec_classify_def spec_decision_list_def Let_def
      determinarRegionPacifico_def evaluarPuntosMultiples_list_ex PointInPolygon_nonempty)

lemma Pacifico_local_first:
  assumes "PointInPolygon \<lparr>Lat = Latitude eq, Lon = Longitude eq\<rparr> (LatlonPacificoLocal rd)"
  shows "Oceano (CategorizeEarthquake (Some rd) eq) = ''Pacifico''
         \<and> OceanoRegion (CategorizeEarthquake (Some rd) eq) = ''local''"
  using assms
  by (simp add: CategorizeEarthquake_def Let_def determinarRegionPacifico_def)

text \<open>
  Claim C3.  With a loaded configuration the labels written by \<^verbatim>\<open>CategorizeEarthquake\<close>
  are those of the decision list read in its order (Pacific belt with the nested local,
  regional, distant resolution; Pacific local; Pacific regional; Pacific local 20 km;
  Caribbean world group; Caribbean regional group; Caribbean local or insular; otherwise
  unclassified), the first check that holds deciding, and no other field changes.  A point
  inside both the Pacific local polygon and a polygon of the Caribbean regional group is
  labelled Pacific, local.
\<close>

theorem CategorizeEarthquake_decision_list:
  "CategorizeEarthquake (Some rd) eq =
     eq\<lparr>Oceano := fst (spec_classify rd \<lparr>Lat = Latitude eq, Lon = Longitude eq\<rparr>),
        OceanoRegion := snd (spec_classify rd \<lparr>Lat = Latitude eq, Lon = Longitude eq\<rparr>)\<rparr>
   \<and> (PointInPolygon \<lparr>Lat = Latitude eq, Lon = Longitude eq\<rparr> (LatlonPacificoLocal rd)
        \<and> evaluarPuntosMultiples \<lparr>Lat = Latitude eq, Lon = Longitude eq\<rparr> (LatlonCaribeRegional rd)
       \<longrightarrow> Oceano (CategorizeEarthquake (Some rd) eq) = ''Pacifico''
           \<and> OceanoRegion (CategorizeEarthquake (Some rd) eq) = ''local'')"
  using CategorizeEarthquake_spec_classify [of rd eq] Pacifico_local_first [of eq rd]
  by blast

lemma fixture_point_Pacifico_local:
  "PointInPolygon \<lparr>Lat = Latitude (quake i 5 5 t), Lon = Longitude (quake i 5 5 t)\<rparr>
     (LatlonPacificoLocal fixture_regions)"
  using square_inside by (simp add: quake_def fixture_regions_def)

lemma fixture_point_Caribe_regional:
  "evaluarPuntosMultiples \<lparr>Lat = Latitude (quake i 5 5 t), Lon = Longitude (quake i 5 5 t)\<rparr>
     (LatlonCaribeRegional fixture_regions)"
  using square_inside by (simp add: quake_def fixture_regions_def)

theorem CategorizeEarthquake_decision_list_witness:
  "PointInPolygon \<lparr>Lat = 5, Lon = 5\<rparr> (LatlonPacificoLocal fixture_regions)
   \<and> evaluarPuntosMultiples \<lparr>Lat = 5, Lon = 5\<rparr> (LatlonCaribeRegional fixture_regions)
   \<and> Oceano (CategorizeEarthquake (Some fixture_regions) (quake ''a'' 5 5 0)) = ''Pacifico''
   \<and> OceanoRegion (CategorizeEarthquake (Some fixture_regions) (quake ''a'' 5 5 0)) = ''local''"
proof -
  have position: "Latitude (quake ''a'' 5 5 0) = 5" "Longitude (quake ''a'' 5 5 0) = 5"
    by (simp_all add: quake_def)
  have inside: "PointInPolygon \<lparr>Lat = 5, Lon = 5\<rparr> (LatlonPacificoLocal fixture_regions)"
    using fixture_point_Pacifico_local [of "''a''" 0] by (simp add: position)
  have group: "evaluarPuntosMultiples \<lparr>Lat = 5, Lon = 5\<rparr> (LatlonCaribeRegional fixture_regions)"
    using fixture_point_Caribe_regional [of "''a''" 0] by (simp add: position)
  from CategorizeEarthquake_decision_list [of fixture_regions "quake ''a'' 5 5 0"] inside group
  have "Oceano (CategorizeEarthquake (Some fixture_regions) (quake ''a'' 5 5 0)) = ''Pacifico''
        \<and> OceanoRegion (CategorizeEarthquake (Some fixture_regions) (quake ''a'' 5 5 0)) = ''local''"
    unfolding position by blast
  with inside group show ?thesis
    by blast
qed

lemma CategorizeEarthquake_keeps:
  "ID (CategorizeEarthquake rd eq) = ID eq"
  "Time (CategorizeEarthquake rd eq) = Time eq"
  "Latitude (CategorizeEarthquake rd eq) = Latitude eq"
  "Longitude (CategorizeEarthquake rd eq) = Longitude eq"
proof -
  have "\<exists>a b. CategorizeEarthquake rd eq = eq\<lparr>Oceano := a, OceanoRegion := b\<rparr>"
  proof (cases rd)
    case None
    have "eq = eq\<lparr>Oceano := Oceano eq, OceanoRegion := OceanoRegion eq\<rparr>"
      by simp
    moreover have "CategorizeEarthquake None eq = eq"
      by (simp add: CategorizeEarthquake_def)
    ultimately show ?thesis
      using None by metis
  next
    case (Some r)
    then show ?thesis
      using CategorizeEarthquake_spec_classify [of r eq] by blast
  qed
  then obtain a b where labels: "CategorizeEarthquake rd eq = eq\<lparr>Oceano := a, OceanoRegion := b\<rparr>"
    by blast
  show "ID (CategorizeEarthquake rd eq) = ID eq"
    and "Time (CategorizeEarthquake rd eq) = Time eq"
    and "Latitude (CategorizeEarthquake rd eq) = Latitude eq"
    and "Longitude (CategorizeEarthquake rd eq) = Longitude eq"
    by (simp_all add: labels)
qed

lemma CategorizeEarthquake_idem:
  "CategorizeEarthquake rd (CategorizeEarthquake rd eq) = CategorizeEarthquake rd eq"
proof (cases rd)
  case None
  then show ?thesis by (simp add: CategorizeEarthquake_def)
next
  case (Some r)
  then show ?thesis by (simp add: CategorizeEarthquake_spec_classify)
qed

lemma fixture_quake_categorized:
  "categorized (CategorizeEarthquake (Some fixture_regions) (quake i 5 5 t))"
  using Pacifico_local_first [OF fixture_point_Pacifico_local, of i t]
  by (simp add: categorized_def)

text \<open>
  Claim C5, on the code.  With no configuration loaded \<^verbatim>\<open>CategorizeEarthquake\<close> returns
  at once: a record that arrives with empty labels leaves with empty labels, not with the
  sentinel, and a record that arrives labelled leaves with the labels it came with.
\<close>

theorem CategorizeEarthquake_not_loaded_counterexample:
  "Oceano (CategorizeEarthquake None (quake ''a'' 5 5 0)) = ''''
   \<and> OceanoRegion (CategorizeEarthquake None (quake ''a'' 5 5 0)) = ''''
   \<and> \<not> (Oceano (CategorizeEarthquake None (quake ''a'' 5 5 0)) = ''Uncategorized''
         \<and> OceanoRegion (CategorizeEarthquake None (quake ''a'' 5 5 0)) = ''Uncategorized'')
   \<and> Oceano (CategorizeEarthquake None
         ((quake ''a'' 5 5 0)\<lparr>Oceano := ''Pacifico'', OceanoRegion := ''local''\<rparr>)) = ''Pacifico''
   \<and> OceanoRegion (CategorizeEarthquake None
         ((quake ''a'' 5 5 0)\<lparr>Oceano := ''Pacifico'', OceanoRegion := ''local''\<rparr>)) = ''local''"
  by (simp add: CategorizeEarthquake_def quake_def)

section \<open>Ingestion\<close>

lemma update_absent: "map_of al k = None \<Longrightarrow> AList.update k v al = al @ [(k, v)]"
  by (induction al) (auto split: if_splits)

lemma AddEarthquake_duplicate:
  "map_of (earthquakes em) (ID eq) = Some e \<Longrightarrow> AddEarthquake rd em eq = (em, False)"
  by (simp add: AddEarthquake_def)

lemma AddEarthquake_unclassified:
  "\<not> categorized (CategorizeEarthquake rd eq) \<Longrightarrow> AddEarthquake rd em eq = (em, False)"
  by (auto simp: AddEarthquake_def categorized_def Let_def split: option.splits)

lemma AddEarthquake_accept:
  assumes "map_of (earthquakes em) (ID eq) = None"
    and "categorized (CategorizeEarthquake rd eq)"
  shows "AddEarthquake rd em eq =
           (em\<lparr>earthquakes := earthquakes em @ [(ID eq, CategorizeEarthquake rd eq)],
               newEarthquakeChan :=
                 select_send_default newEarthquakeChan_cap (CategorizeEarthquake rd eq)
                   (newEarthquakeChan em)\<rparr>,
            True)"
  using assms
  by (auto simp: AddEarthquake_def categorized_def Let_def CategorizeEarthquake_keeps update_absent)

lemma AddEarthquake_cases:
  obtains (duplicate) e where "map_of (earthquakes em) (ID eq) = Some e"
      and "AddEarthquake rd em eq = (em, False)"
  | (unclassified) "\<not> categorized (CategorizeEarthquake rd eq)"
      and "AddEarthquake rd em eq = (em, False)"
  | (accepted) "map_of (earthquakes em) (ID eq) = None"
      and "categorized (CategorizeEarthquake rd eq)"
      and "AddEarthquake rd em eq =
             (em\<lparr>earthquakes := earthquakes em @ [(ID eq, CategorizeEarthquake rd eq)],
                 newEarthquakeChan :=
                   select_send_default newEarthquakeChan_cap (CategorizeEarthquake rd eq)
                     (newEarthquakeChan em)\<rparr>,
              True)"
  using AddEarthquake_duplicate [of em eq _ rd] AddEarthquake_unclassified [of rd eq em]
    AddEarthquake_accept [of em eq rd]
  by (cases "map_of (earthquakes em) (ID eq)"; cases "categorized (CategorizeEarthquake rd eq)") auto

lemma GetCount_length: "GetCount em = length (filter categorized (map snd (earthquakes em)))"
  by (simp add: GetCount_def fold_counter)

lemma AddEarthquake_twice:
  "AddEarthquake rd (fst (AddEarthquake rd em eq)) eq = (fst (AddEarthquake rd em eq), False)"
proof (cases rule: AddEarthquake_cases [of em eq rd])
  case (duplicate e)
  then show ?thesis by simp
next
  case unclassified
  then show ?thesis by simp
next
  case accepted
  have "map_of (earthquakes (fst (AddEarthquake rd em eq))) (ID eq)
          = Some (CategorizeEarthquake rd eq)"
    by (simp add: accepted(1,3) map_add_def)
  then show ?thesis
    by (rule AddEarthquake_duplicate)
qed

text \<open>
  Claim C1.  Ingesting the same record twice: the second call returns false and returns
  the manager exactly as the first call left it, so the index, the count and the new-event
  stream are unchanged and the record is accepted at most once.  A record whose identifier
  is already in the index is rejected with the manager untouched.
\<close>

theorem AddEarthquake_idempotent:
  "AddEarthquake rd (fst (AddEarthquake rd em eq)) eq = (fst (AddEarthquake rd em eq), False)
   \<and> \<not> (snd (AddEarthquake rd em eq) \<and> snd (AddEarthquake rd (fst (AddEarthquake rd em eq)) eq))
   \<and> earthquakes (fst (AddEarthquake rd (fst (AddEarthquake rd em eq)) eq))
       = earthquakes (fst (AddEarthquake rd em eq))
   \<and> GetCount (fst (AddEarthquake rd (fst (AddEarthquake rd em eq)) eq))
       = GetCount (fst (AddEarthquake rd em eq))
   \<and> newEarthquakeChan (fst (AddEarthquake rd (fst (AddEarthquake rd em eq)) eq))
       = newEarthquakeChan (fst (AddEarthquake rd em eq))
   \<and> (map_of (earthquakes em) (ID eq) \<noteq> None \<longrightarrow> AddEarthquake rd em eq = (em, False))"
proof -
  have "map_of (earthquakes em) (ID eq) \<noteq> None \<longrightarrow> AddEarthquake rd em eq = (em, False)"
    using AddEarthquake_duplicate [of em eq _ rd] by blast
  then show ?thesis
    by (simp add: AddEarthquake_twice)
qed

theorem AddEarthquake_idempotent_witness:
  "snd (AddEarthquake (Some fixture_regions) (NewEarthquakeManager 0) (quake ''a'' 5 5 0))
   \<and> map_of (earthquakes (fst (AddEarthquake (Some fixture_regions) (NewEarthquakeManager 0)
                 (quake ''a'' 5 5 0)))) (ID (quake ''a'' 5 5 0)) \<noteq> None
   \<and> AddEarthquake (Some fixture_regions)
        (fst (AddEarthquake (Some fixture_regions) (NewEarthquakeManager 0) (quake ''a'' 5 5 0)))
        (quake ''a'' 5 5 0)
      = (fst (AddEarthquake (Some fixture_regions) (NewEarthquakeManager 0) (quake ''a'' 5 5 0)),
         False)"
proof -
  have fresh: "map_of (earthquakes (NewEarthquakeManager 0)) (ID (quake ''a'' 5 5 0)) = None"
    by (simp add: NewEarthquakeManager_def)
  note first = AddEarthquake_accept [OF fresh fixture_quake_categorized]
  have stored: "map_of (earthquakes (fst (AddEarthquake (Some fixture_regions)
                  (NewEarthquakeManager 0) (quake ''a'' 5 5 0)))) (ID (quake ''a'' 5 5 0)) \<noteq> None"
    by (simp add: first)
  from AddEarthquake_idempotent
    [of "Some fixture_regions"
        "fst (AddEarthquake (Some fixture_regions) (NewEarthquakeManager 0) (quake ''a'' 5 5 0))"
        "quake ''a'' 5 5 0"] stored
  have "AddEarthquake (Some fixture_regions)
          (fst (AddEarthquake (Some fixture_regions) (NewEarthquakeManager 0) (quake ''a'' 5 5 0)))
          (quake ''a'' 5 5 0)
        = (fst (AddEarthquake (Some fixture_regions) (NewEarthquakeManager 0) (quake ''a'' 5 5 0)),
           False)"
    by blast
  moreover have "snd (AddEarthquake (Some fixture_regions) (NewEarthquakeManager 0)
                       (quake ''a'' 5 5 0))"
    by (simp add: first)
  ultimately show ?thesis
    using stored by blast
qed

text \<open>
  Claim C5, as amended.  With no configuration loaded \<^verbatim>\<open>CategorizeEarthquake\<close> returns
  the record unchanged, both labels as they were; a record whose basin or region label is
  empty is then rejected by \<^verbatim>\<open>AddEarthquake\<close>, which leaves the manager untouched.
\<close>

theorem CategorizeEarthquake_not_loaded:
  "CategorizeEarthquake None eq = eq
   \<and> (Oceano eq = '''' \<or> OceanoRegion eq = '''' \<longrightarrow> AddEarthquake None em eq = (em, False))"
proof -
  have unchanged: "CategorizeEarthquake None eq = eq"
    by (simp add: CategorizeEarthquake_def)
  have "Oceano eq = '''' \<or> OceanoRegion eq = '''' \<longrightarrow> \<not> categorized (CategorizeEarthquake None eq)"
    by (auto simp: unchanged categorized_def)
  with unchanged show ?thesis
    using AddEarthquake_unclassified [of None eq em] by blast
qed

theorem CategorizeEarthquake_not_loaded_witness:
  "Oceano (quake ''a'' 5 5 0) = ''''
   \<and> CategorizeEarthquake None (quake ''a'' 5 5 0) = quake ''a'' 5 5 0
   \<and> AddEarthquake None (NewEarthquakeManager 0) (quake ''a'' 5 5 0)
       = (NewEarthquakeManager 0, False)"
proof -
  have unlabelled: "Oceano (quake ''a'' 5 5 0) = ''''"
    by (simp add: quake_def)
  with CategorizeEarthquake_not_loaded [of "quake ''a'' 5 5 0" "NewEarthquakeManager 0"]
  show ?thesis
    by blast
qed

text \<open>
  Claim C6.  A record whose identifier is not in the index and whose labels come out
  classified is inserted and \<^verbatim>\<open>AddEarthquake\<close> returns true, whatever the state of the
  new-event stream: with room in the buffer the labelled record is appended to it, with
  the buffer full (one hundred records) the stream is left as it was and the call still
  returns.
\<close>

theorem AddEarthquake_accepts_when_stream_full:
  assumes "map_of (earthquakes em) (ID eq) = None"
    and "categorized (CategorizeEarthquake rd eq)"
  shows "snd (AddEarthquake rd em eq)
    \<and> earthquakes (fst (AddEarthquake rd em eq))
         = earthquakes em @ [(ID eq, CategorizeEarthquake rd eq)]
    \<and> map_of (earthquakes (fst (AddEarthquake rd em eq))) (ID eq)
         = Some (CategorizeEarthquake rd eq)
    \<and> (length (newEarthquakeChan em) \<ge> 100
         \<longrightarrow> newEarthquakeChan (fst (AddEarthquake rd em eq)) = newEarthquakeChan em)
    \<and> (length (newEarthquakeChan em) < 100
         \<longrightarrow> newEarthquakeChan (fst (AddEarthquake rd em eq))
             = newEarthquakeChan em @ [CategorizeEarthquake rd eq])"
  by (simp add: AddEarthquake_accept [OF assms] assms(1) map_add_def select_send_default_def
      newEarthquakeChan_cap_def)

theorem AddEarthquake_accepts_when_stream_full_witness:
  "length (newEarthquakeChan full_manager) = 100
   \<and> map_of (earthquakes full_manager) (ID (quake ''a'' 5 5 0)) = None
   \<and> snd (AddEarthquake (Some fixture_regions) full_manager (quake ''a'' 5 5 0))
   \<and> map_of (earthquakes (fst (AddEarthquake (Some fixture_regions) full_manager
                (quake ''a'' 5 5 0)))) (ID (quake ''a'' 5 5 0))
       = Some (CategorizeEarthquake (Some fixture_regions) (quake ''a'' 5 5 0))
   \<and> newEarthquakeChan (fst (AddEarthquake (Some fixture_regions) full_manager
         (quake ''a'' 5 5 0))) = newEarthquakeChan full_manager"
proof -
  have fresh: "map_of (earthquakes full_manager) (ID (quake ''a'' 5 5 0)) = None"
    by (simp add: full_manager_def)
  have full: "length (newEarthquakeChan full_manager) = 100"
    by (simp add: full_manager_def)
  from AddEarthquake_accepts_when_stream_full [OF fresh fixture_quake_categorized] full fresh
  show ?thesis
    by (simp add: map_add_def)
qed

section \<open>Eviction\<close>

lemma delete_entry:
  assumes "distinct (map fst al)" and "(k, e) \<in> set al"
  shows "set m \<subseteq> set al \<Longrightarrow> AList.delete k m = filter (\<lambda>p. p \<noteq> (k, e)) m"
proof (induction m)
  case Nil
  then show ?case by simp
next
  case (Cons p m)
  obtain k' e' where p: "p = (k', e')" by (cases p)
  from Cons.prems p have "(k', e') \<in> set al" by simp
  then have same: "k' = k \<Longrightarrow> e' = e"
    using eq_key_imp_eq_value [OF assms(1) _ assms(2), of e'] by simp
  from Cons.prems have "set m \<subseteq> set al" by simp
  then have rest: "AList.delete k m = filter (\<lambda>p. p \<noteq> (k, e)) m"
    by (rule Cons.IH)
  show ?case
  proof (cases "k' = k")
    case True
    with same have "p = (k, e)" by (simp add: p)
    then show ?thesis by (simp add: rest)
  next
    case False
    then show ?thesis by (simp add: p rest)
  qed
qed

lemma CleanOld_fold:
  assumes "distinct (map fst al)"
  shows "set xs \<subseteq> set al \<Longrightarrow> set m \<subseteq> set al \<Longrightarrow>
    fold (\<lambda>(eid, eq) (m, removed).
            if Time eq < cutoff then (AList.delete eid m, removed + 1) else (m, removed))
         xs (m, r)
    = (filter (\<lambda>p. p \<notin> set (filter (\<lambda>p. Time (snd p) < cutoff) xs)) m,
       r + length (filter (\<lambda>p. Time (snd p) < cutoff) xs))"
proof (induction xs arbitrary: m r)
  case Nil
  then show ?case by simp
next
  case (Cons x xs)
  obtain k e where x: "x = (k, e)" by (cases x)
  from Cons.prems(1) have xs_sub: "set xs \<subseteq> set al" by simp
  show ?case
  proof (cases "Time e < cutoff")
    case True
    from Cons.prems(1) x have mem: "(k, e) \<in> set al" by simp
    have del: "AList.delete k m = filter (\<lambda>p. p \<noteq> (k, e)) m"
      using delete_entry [OF assms mem Cons.prems(2)] .
    have sub: "set (filter (\<lambda>p. p \<noteq> (k, e)) m) \<subseteq> set al"
      using Cons.prems(2) by auto
    show ?thesis
      unfolding fold_Cons comp_def x
      using True by (simp add: del Cons.IH [OF xs_sub sub])
  next
    case False
    show ?thesis
      unfolding fold_Cons comp_def x
      using False by (simp add: Cons.IH [OF xs_sub Cons.prems(2)])
  qed
qed

lemma CleanOld_filter:
  assumes "distinct (map fst (earthquakes em))"
  shows "CleanOld now em =
     (em\<lparr>earthquakes :=
           filter (\<lambda>p. \<not> Time (snd p) < now + Duration_neg (maxAge em)) (earthquakes em)\<rparr>,
      length (filter (\<lambda>p. Time (snd p) < now + Duration_neg (maxAge em)) (earthquakes em)))"
proof -
  have "filter (\<lambda>p. p \<notin> set (filter (\<lambda>p. Time (snd p) < c) xs)) xs
        = filter (\<lambda>p. \<not> Time (snd p) < c) xs" for c and xs :: "(string \<times> Earthquake) list"
    by (intro filter_cong) auto
  then show ?thesis
    unfolding CleanOld_def Let_def
    by (simp add: CleanOld_fold [OF assms order_refl order_refl])
qed

lemma Duration_neg_minus:
  assumes "- (2 ^ 63) < d" and "d < 2 ^ 63"
  shows "Duration_neg d = - d"
proof -
  from assms have "0 \<le> 2 ^ 63 - d" and "2 ^ 63 - d < 2 ^ 64"
    by simp_all
  then have "(2 ^ 63 - d) mod 2 ^ 64 = 2 ^ 63 - d"
    by (rule mod_pos_pos_trivial)
  then show ?thesis
    by (simp add: Duration_neg_def)
qed

lemma Duration_neg_least: "Duration_neg (- (2 ^ 63)) = - (2 ^ 63)"
  by (simp add: Duration_neg_def)

lemma week_example:
  "CleanOld now (week_manager now)
     = ((week_manager now)\<lparr>earthquakes := [(''recent'', quake ''recent'' 5 5 (now - days 6))]\<rparr>, 1)"
proof -
  have "Duration_neg (days 7) = - days 7"
    by (rule Duration_neg_minus) (simp_all add: days_def)
  then show ?thesis
    by (simp add: CleanOld_def week_manager_def Let_def, simp add: days_def quake_def)
qed

text \<open>
  Claim C7, on the code.  A manager made with the least duration holds a record stamped
  eight days before \<open>now\<close>, which is older than \<open>now - maxAge\<close>; the negation of the least
  duration wraps to itself, the cutoff lies \<open>2 ^ 63\<close> nanoseconds before \<open>now\<close>, and
  \<^verbatim>\<open>CleanOld\<close> removes nothing and returns 0.
\<close>

theorem CleanOld_evicts_exactly_old_counterexample:
  "distinct (map fst (earthquakes (least_age_manager 0)))
   \<and> map_of (earthquakes (least_age_manager 0)) ''old'' = Some (quake ''old'' 5 5 (0 - days 8))
   \<and> Time (quake ''old'' 5 5 (0 - days 8)) < 0 - maxAge (least_age_manager 0)
   \<and> CleanOld 0 (least_age_manager 0) = (least_age_manager 0, 0)"
  by (simp add: CleanOld_def least_age_manager_def Let_def days_def quake_def Duration_neg_def)

text \<open>
  Claim C7, as amended.  On an index with one entry per key and for a \<^verbatim>\<open>maxAge\<close> other
  than the least duration, \<^verbatim>\<open>CleanOld\<close> at the instant \<open>now\<close> removes exactly the entries
  stamped strictly before \<open>now - maxAge\<close>, keeps every other entry as it was and in place,
  returns the number removed, and touches nothing else of the manager.  With seven days of
  retention the record stamped eight days back goes and the one stamped six days back
  stays.
\<close>

theorem CleanOld_evicts_exactly_old:
  assumes "distinct (map fst (earthquakes em))"
    and "- (2 ^ 63) < maxAge em" and "maxAge em < 2 ^ 63"
  shows "earthquakes (fst (CleanOld now em))
           = filter (\<lambda>(eid, eq). \<not> Time eq < now - maxAge em) (earthquakes em)
    \<and> snd (CleanOld now em)
           = length (filter (\<lambda>(eid, eq). Time eq < now - maxAge em) (earthquakes em))
    \<and> length (earthquakes (fst (CleanOld now em))) + snd (CleanOld now em)
           = length (earthquakes em)
    \<and> maxAge (fst (CleanOld now em)) = maxAge em
    \<and> newEarthquakeChan (fst (CleanOld now em)) = newEarthquakeChan em
    \<and> CleanOld now (week_manager now)
         = ((week_manager now)\<lparr>earthquakes := [(''recent'', quake ''recent'' 5 5 (now - days 6))]\<rparr>, 1)"
proof -
  have split: "(\<lambda>(eid, eq). P eq) = (\<lambda>p. P (snd p))" for P :: "Earthquake \<Rightarrow> bool"
    by (simp add: fun_eq_iff)
  have "length (filter (\<lambda>p. \<not> Q p) xs) + length (filter Q xs) = length xs"
    for Q and xs :: "(string \<times> Earthquake) list"
    using sum_length_filter_compl [of Q xs] by simp
  then show ?thesis
    by (simp add: CleanOld_filter [OF assms(1)] Duration_neg_minus [OF assms(2,3)] split
        week_example)
qed

theorem CleanOld_evicts_exactly_old_witness:
  "distinct (map fst (earthquakes (week_manager 0)))
   \<and> - (2 ^ 63) < maxAge (week_manager 0) \<and> maxAge (week_manager 0) < 2 ^ 63
   \<and> earthquakes (fst (CleanOld 0 (week_manager 0))) = [(''recent'', quake ''recent'' 5 5 (- days 6))]
   \<and> snd (CleanOld 0 (week_manager 0)) = 1"
proof -
  have keys: "distinct (map fst (earthquakes (week_manager 0)))"
    by (simp add: week_manager_def)
  have range: "- (2 ^ 63) < maxAge (week_manager 0)" "maxAge (week_manager 0) < 2 ^ 63"
    by (simp_all add: week_manager_def days_def)
  from CleanOld_evicts_exactly_old [OF keys range, of 0] keys range show ?thesis
    by (simp add: week_manager_def days_def quake_def)
qed

section \<open>The invariant of the index\<close>

lemma store_inv_new: "store_inv rd (NewEarthquakeManager age)"
  by (simp add: store_inv_def NewEarthquakeManager_def)

lemma store_inv_add:
  assumes "store_inv rd em"
  shows "store_inv rd (fst (AddEarthquake rd em eq))"
proof (cases rule: AddEarthquake_cases [of em eq rd])
  case (duplicate e)
  with assms show ?thesis by simp
next
  case unclassified
  with assms show ?thesis by simp
next
  case accepted
  from accepted(1) have "ID eq \<notin> fst ` set (earthquakes em)"
    by (simp add: map_of_eq_None_iff)
  with assms accepted(2) show ?thesis
    by (simp add: accepted(3) store_inv_def CategorizeEarthquake_keeps CategorizeEarthquake_idem)
qed

lemma store_inv_add_loop:
  "store_inv rd em \<Longrightarrow> store_inv rd (fst (AddEarthquakes_loop rd eqs em newOnes))"
proof (induction eqs arbitrary: em newOnes)
  case Nil
  then show ?case by simp
next
  case (Cons eq eqs)
  obtain em' b where step: "AddEarthquake rd em eq = (em', b)"
    by (cases "AddEarthquake rd em eq")
  with store_inv_add [OF Cons.prems, of eq] have "store_inv rd em'"
    by simp
  then show ?case
    using Cons.IH [of em'] step by (cases b) simp_all
qed

lemma store_inv_clean:
  assumes "store_inv rd em"
  shows "store_inv rd (fst (CleanOld now em))"
proof -
  from assms have keys: "distinct (map fst (earthquakes em))"
    by (simp add: store_inv_def)
  from assms show ?thesis
    by (simp add: CleanOld_filter [OF keys] store_inv_def distinct_map_filter list_all_iff)
qed

lemma reachable_store_inv: "reachable rd em \<Longrightarrow> store_inv rd em"
proof (induction rule: reachable.induct)
  case (reach_new age)
  show ?case by (rule store_inv_new)
next
  case (reach_add em eq)
  then show ?case by (simp add: store_inv_add)
next
  case (reach_add_many em eqs)
  then show ?case by (simp add: AddEarthquakes_def store_inv_add_loop)
next
  case (reach_clean em now)
  then show ?case by (simp add: store_inv_clean)
next
  case (reach_receive em eq rest)
  then show ?case by (simp add: store_inv_def)
qed

lemma store_inv_entry:
  assumes "store_inv rd em" and "e \<in> snd ` set (earthquakes em)"
  shows "categorized e" and "CategorizeEarthquake rd e = e"
  using assms by (auto simp: store_inv_def list_all_iff)

section \<open>Queries\<close>

lemma sort_insert_insort:
  "sort_insert time_After x ys = insort_key (\<lambda>e. - Time e) x ys"
  by (induction ys) (auto simp: time_After_def)

lemma sort_Slice_sort_key: "sort_Slice time_After xs = sort_key (\<lambda>e. - Time e) xs"
proof -
  have "sort_insert time_After = insort_key (\<lambda>e. - Time e)"
    by (intro ext) (rule sort_insert_insort)
  then show ?thesis
    by (simp add: sort_Slice_def sort_key_def)
qed

lemma set_sort_Slice: "set (sort_Slice time_After xs) = set xs"
  by (simp add: sort_Slice_sort_key)

lemma sorted_sort_Slice: "sorted_wrt (\<lambda>a b. Time a \<ge> Time b) (sort_Slice time_After xs)"
proof -
  have "sorted (map (\<lambda>e. - Time e) (sort_key (\<lambda>e. - Time e) xs))"
    by (rule sorted_sort_key)
  then show ?thesis
    by (simp add: sort_Slice_sort_key sorted_map)
qed

lemma sort_Slice_three:
  assumes "mset xs = {#e1, e2, e3#}" and "Time e1 < Time e2" and "Time e2 < Time e3"
  shows "sort_Slice time_After xs = [e3, e2, e1]"
proof -
  have "mset xs = mset [e3, e2, e1]"
    by (simp add: assms(1))
  moreover
  from assms(1) have "set xs = {e1, e2, e3}"
    by (metis set_mset_mset set_mset_add_mset_insert set_mset_empty)
  with assms(2,3) have "inj_on (\<lambda>e. - Time e) (set xs)"
    by (auto simp: inj_on_def)
  moreover from assms(2,3) have "sorted (map (\<lambda>e. - Time e) [e3, e2, e1])"
    by simp
  ultimately show ?thesis
    unfolding sort_Slice_sort_key by (rule sort_key_inj_key_eq)
qed

lemma query_sets:
  "set (GetAll em) = {e \<in> snd ` set (earthquakes em). categorized e}"
  "set (GetByOceano em oceano) = {e \<in> snd ` set (earthquakes em). Oceano e = oceano}"
  "set (GetByRegion em region) = {e \<in> snd ` set (earthquakes em). OceanoRegion e = region}"
  "set (GetByTimeRange em start finish)
     = {e \<in> snd ` set (earthquakes em). Time e > start \<and> Time e < finish}"
  by (auto simp: GetAll_def GetByOceano_def GetByRegion_def GetByTimeRange_def set_sort_Slice)

lemma query_sorted:
  "sorted_wrt (\<lambda>a b. Time a \<ge> Time b) (GetAll em)"
  "sorted_wrt (\<lambda>a b. Time a \<ge> Time b) (GetByOceano em oceano)"
  "sorted_wrt (\<lambda>a b. Time a \<ge> Time b) (GetByRegion em region)"
  "sorted_wrt (\<lambda>a b. Time a \<ge> Time b) (GetByTimeRange em start finish)"
  by (simp_all add: GetAll_def GetByOceano_def GetByRegion_def GetByTimeRange_def sorted_sort_Slice)

lemma query_subset:
  "set (GetAll em) \<subseteq> snd ` set (earthquakes em)"
  "set (GetByOceano em oceano) \<subseteq> snd ` set (earthquakes em)"
  "set (GetByRegion em region) \<subseteq> snd ` set (earthquakes em)"
  "set (GetByTimeRange em start finish) \<subseteq> snd ` set (earthquakes em)"
  unfolding query_sets by blast+

lemma unclassified_not_categorized:
  "Oceano e = ''Uncategorized'' \<or> OceanoRegion e = ''Uncategorized'' \<Longrightarrow> \<not> categorized e"
  by (auto simp: categorized_def)

lemma unclassified_not_stored:
  assumes "store_inv rd em"
    and "Oceano (CategorizeEarthquake rd eq) = ''Uncategorized''
         \<or> OceanoRegion (CategorizeEarthquake rd eq) = ''Uncategorized''"
  shows "eq \<notin> snd ` set (earthquakes em)"
    and "CategorizeEarthquake rd eq \<notin> snd ` set (earthquakes em)"
proof -
  from assms(2) have bad: "\<not> categorized (CategorizeEarthquake rd eq)"
    by (rule unclassified_not_categorized)
  show "eq \<notin> snd ` set (earthquakes em)"
  proof
    assume "eq \<in> snd ` set (earthquakes em)"
    from store_inv_entry [OF assms(1) this] bad show False
      by simp
  qed
  show "CategorizeEarthquake rd eq \<notin> snd ` set (earthquakes em)"
    using store_inv_entry(1) [OF assms(1)] bad by blast
qed

text \<open>
  Claim C2.  In every state the manager reaches by ingesting one record, ingesting a
  batch or evicting, every retained record has a basin and a region label that are neither
  empty nor the sentinel.  A record that classifies as unclassified is rejected by
  \<^verbatim>\<open>AddEarthquake\<close> with the manager untouched, so the count does not change, and
  neither the record nor its classified copy is in the result of any query.
\<close>

theorem retained_records_are_labelled:
  assumes "reachable rd em"
  shows "(\<forall>(k, e) \<in> set (earthquakes em).
            Oceano e \<noteq> '''' \<and> Oceano e \<noteq> ''Uncategorized''
            \<and> OceanoRegion e \<noteq> '''' \<and> OceanoRegion e \<noteq> ''Uncategorized'')
    \<and> (Oceano (CategorizeEarthquake rd eq) = ''Uncategorized''
        \<or> OceanoRegion (CategorizeEarthquake rd eq) = ''Uncategorized''
       \<longrightarrow> AddEarthquake rd em eq = (em, False)
           \<and> GetCount (fst (AddEarthquake rd em eq)) = GetCount em
           \<and> eq \<notin> set (GetAll em) \<union> set (GetByOceano em oceano)
                    \<union> set (GetByRegion em region) \<union> set (GetByTimeRange em start finish)
           \<and> CategorizeEarthquake rd eq
                \<notin> set (GetAll em) \<union> set (GetByOceano em oceano)
                    \<union> set (GetByRegion em region) \<union> set (GetByTimeRange em start finish))"
proof -
  from assms have inv: "store_inv rd em"
    by (rule reachable_store_inv)
  have labelled: "\<forall>(k, e) \<in> set (earthquakes em).
            Oceano e \<noteq> '''' \<and> Oceano e \<noteq> ''Uncategorized''
            \<and> OceanoRegion e \<noteq> '''' \<and> OceanoRegion e \<noteq> ''Uncategorized''"
    using inv by (auto simp: store_inv_def list_all_iff categorized_def)
  have rejected: "AddEarthquake rd em eq = (em, False)
           \<and> GetCount (fst (AddEarthquake rd em eq)) = GetCount em
           \<and> eq \<notin> set (GetAll em) \<union> set (GetByOceano em oceano)
                    \<union> set (GetByRegion em region) \<union> set (GetByTimeRange em start finish)
           \<and> CategorizeEarthquake rd eq
                \<notin> set (GetAll em) \<union> set (GetByOceano em oceano)
                    \<union> set (GetByRegion em region) \<union> set (GetByTimeRange em start finish)"
    if bad: "Oceano (CategorizeEarthquake rd eq) = ''Uncategorized''
             \<or> OceanoRegion (CategorizeEarthquake rd eq) = ''Uncategorized''"
  proof -
    have add: "AddEarthquake rd em eq = (em, False)"
      using unclassified_not_categorized [OF bad] by (rule AddEarthquake_unclassified)
    moreover note unclassified_not_stored [OF inv bad]
    moreover note query_subset(1) [of em] query_subset(2) [of em oceano]
      query_subset(3) [of em region] query_subset(4) [of em start finish]
    ultimately show ?thesis
      by auto
  qed
  from labelled rejected show ?thesis
    by blast
qed


lemma PointInPolygon_Nil: "\<not> PointInPolygon point []"
  by (simp add: PointInPolygon_def)

lemma fixture_labelled:
  "CategorizeEarthquake (Some fixture_regions) (quake i 5 5 t)
     = (quake i 5 5 t)\<lparr>Oceano := ''Pacifico'', OceanoRegion := ''local''\<rparr>"
  using square_inside
  by (simp add: CategorizeEarthquake_def Let_def fixture_regions_def quake_def PointInPolygon_Nil)

lemma fixture_unclassified:
  "CategorizeEarthquake (Some fixture_regions) (quake i 15 15 t)
     = (quake i 15 15 t)\<lparr>Oceano := ''Uncategorized'', OceanoRegion := ''Uncategorized''\<rparr>"
  using square_outside
  by (simp add: CategorizeEarthquake_def Let_def fixture_regions_def quake_def PointInPolygon_Nil)

lemma one_manager_eq:
  "one_manager =
     \<lparr>earthquakes = [(''a'', (quake ''a'' 5 5 0)\<lparr>Oceano := ''Pacifico'', OceanoRegion := ''local''\<rparr>)],
      maxAge = 0,
      newEarthquakeChan = [(quake ''a'' 5 5 0)\<lparr>Oceano := ''Pacifico'', OceanoRegion := ''local''\<rparr>]\<rparr>"
proof -
  have fresh: "map_of (earthquakes (NewEarthquakeManager 0)) (ID (quake ''a'' 5 5 0)) = None"
    by (simp add: NewEarthquakeManager_def)
  show ?thesis
    unfolding one_manager_def AddEarthquake_accept [OF fresh fixture_quake_categorized]
    by (simp add: fixture_labelled NewEarthquakeManager_def select_send_default_def
        newEarthquakeChan_cap_def, simp add: quake_def)
qed

theorem retained_records_are_labelled_witness:
  "reachable (Some fixture_regions) one_manager
   \<and> Oceano (CategorizeEarthquake (Some fixture_regions) (quake ''b'' 15 15 0)) = ''Uncategorized''
   \<and> AddEarthquake (Some fixture_regions) one_manager (quake ''b'' 15 15 0) = (one_manager, False)
   \<and> quake ''b'' 15 15 0 \<notin> set (GetAll one_manager)
   \<and> list_all categorized (map snd (earthquakes one_manager))
   \<and> GetCount one_manager = 1"
proof -
  have reach: "reachable (Some fixture_regions) one_manager"
    unfolding one_manager_def by (intro reach_add reach_new)
  have bad: "Oceano (CategorizeEarthquake (Some fixture_regions) (quake ''b'' 15 15 0))
               = ''Uncategorized''"
    by (simp add: fixture_unclassified)
  note claim = retained_records_are_labelled
    [OF reach, of "quake ''b'' 15 15 0" "''Pacifico''" "''local''" 0 1]
  from claim bad
  have "AddEarthquake (Some fixture_regions) one_manager (quake ''b'' 15 15 0) = (one_manager, False)"
    and "quake ''b'' 15 15 0 \<notin> set (GetAll one_manager)"
    by simp_all
  moreover from claim have "list_all categorized (map snd (earthquakes one_manager))"
    by (auto simp: list_all_iff categorized_def)
  moreover have "GetCount one_manager = 1"
    by (simp add: GetCount_length one_manager_eq categorized_def)
  ultimately show ?thesis
    using reach bad by blast
qed


lemma GetAll_three:
  assumes "mset (map snd (earthquakes em)) = {#e1, e2, e3#}"
    and "categorized e1" and "categorized e2" and "categorized e3"
    and "Time e1 < Time e2" and "Time e2 < Time e3"
  shows "GetAll em = [e3, e2, e1]"
proof -
  have "mset (filter categorized (map snd (earthquakes em)))
          = filter_mset categorized (mset (map snd (earthquakes em)))"
    by simp
  also have "\<dots> = {#e1, e2, e3#}"
    unfolding assms(1) using assms(2-4) by simp
  finally show ?thesis
    unfolding GetAll_def using assms(5,6) by (rule sort_Slice_three)
qed

text \<open>
  Claim C8.  In a reachable state every record returned by \<^verbatim>\<open>GetAll\<close>,
  \<^verbatim>\<open>GetByOceano\<close>, \<^verbatim>\<open>GetByRegion\<close> and \<^verbatim>\<open>GetByTimeRange\<close> is a labelled record
  of the index.  In any state each result is ordered by instant, latest first, and holds
  exactly the records of the index that pass the query's own test; the test of
  \<^verbatim>\<open>GetAll\<close> is the label test itself.  For three labelled records with instants
  \<open>T1 < T2 < T3\<close>, in whatever order the index holds them, \<^verbatim>\<open>GetAll\<close> returns them
  as \<open>[T3, T2, T1]\<close>.
\<close>

theorem queries_labelled_and_sorted:
  "(reachable rd em \<longrightarrow>
      (\<forall>e \<in> set (GetAll em) \<union> set (GetByOceano em oceano) \<union> set (GetByRegion em region)
             \<union> set (GetByTimeRange em start finish).
          categorized e \<and> e \<in> snd ` set (earthquakes em)))
   \<and> sorted_wrt (\<lambda>a b. Time a \<ge> Time b) (GetAll em)
   \<and> sorted_wrt (\<lambda>a b. Time a \<ge> Time b) (GetByOceano em oceano)
   \<and> sorted_wrt (\<lambda>a b. Time a \<ge> Time b) (GetByRegion em region)
   \<and> sorted_wrt (\<lambda>a b. Time a \<ge> Time b) (GetByTimeRange em start finish)
   \<and> set (GetAll em) = {e \<in> snd ` set (earthquakes em). categorized e}
   \<and> set (GetByOceano em oceano) = {e \<in> snd ` set (earthquakes em). Oceano e = oceano}
   \<and> set (GetByRegion em region) = {e \<in> snd ` set (earthquakes em). OceanoRegion e = region}
   \<and> set (GetByTimeRange em start finish)
        = {e \<in> snd ` set (earthquakes em). Time e > start \<and> Time e < finish}
   \<and> (mset (map snd (earthquakes em)) = {#e1, e2, e3#}
        \<and> categorized e1 \<and> categorized e2 \<and> categorized e3
        \<and> Time e1 < Time e2 \<and> Time e2 < Time e3
       \<longrightarrow> GetAll em = [e3, e2, e1])"
proof -
  have "categorized e \<and> e \<in> snd ` set (earthquakes em)"
    if "reachable rd em"
      and "e \<in> set (GetAll em) \<union> set (GetByOceano em oceano) \<union> set (GetByRegion em region)
             \<union> set (GetByTimeRange em start finish)" for e
  proof -
    from that(2) have stored: "e \<in> snd ` set (earthquakes em)"
      using query_subset(1) [of em] query_subset(2) [of em oceano]
        query_subset(3) [of em region] query_subset(4) [of em start finish]
      by blast
    with store_inv_entry(1) [OF reachable_store_inv [OF that(1)]] show ?thesis
      by blast
  qed
  moreover have "mset (map snd (earthquakes em)) = {#e1, e2, e3#}
        \<and> categorized e1 \<and> categorized e2 \<and> categorized e3
        \<and> Time e1 < Time e2 \<and> Time e2 < Time e3
       \<longrightarrow> GetAll em = [e3, e2, e1]"
    using GetAll_three [of em e1 e2 e3] by blast
  ultimately show ?thesis
    using query_sorted(1) [of em] query_sorted(2) [of em oceano] query_sorted(3) [of em region]
      query_sorted(4) [of em start finish]
      query_sets(1) [of em] query_sets(2) [of em oceano] query_sets(3) [of em region]
      query_sets(4) [of em start finish]
    by blast
qed

lemma three_manager_eq:
  "earthquakes three_manager =
     [(''t2'', (quake ''t2'' 5 5 2)\<lparr>Oceano := ''Pacifico'', OceanoRegion := ''local''\<rparr>),
      (''t3'', (quake ''t3'' 5 5 3)\<lparr>Oceano := ''Pacifico'', OceanoRegion := ''local''\<rparr>),
      (''t1'', (quake ''t1'' 5 5 1)\<lparr>Oceano := ''Pacifico'', OceanoRegion := ''local''\<rparr>)]"
  unfolding three_manager_def AddEarthquakes_def
  by (simp add: AddEarthquake_def fixture_labelled Let_def NewEarthquakeManager_def, simp add: quake_def)

theorem queries_labelled_and_sorted_witness:
  "reachable (Some fixture_regions) three_manager
   \<and> map fst (earthquakes three_manager) = [''t2'', ''t3'', ''t1'']
   \<and> list_all categorized (GetByOceano three_manager ''Pacifico'')
   \<and> map ID (GetAll three_manager) = [''t3'', ''t2'', ''t1'']
   \<and> map Time (GetAll three_manager) = [3, 2, 1]"
proof -
  let ?e1 = "(quake ''t1'' 5 5 1)\<lparr>Oceano := ''Pacifico'', OceanoRegion := ''local''\<rparr>"
  let ?e2 = "(quake ''t2'' 5 5 2)\<lparr>Oceano := ''Pacifico'', OceanoRegion := ''local''\<rparr>"
  let ?e3 = "(quake ''t3'' 5 5 3)\<lparr>Oceano := ''Pacifico'', OceanoRegion := ''local''\<rparr>"
  have reach: "reachable (Some fixture_regions) three_manager"
    unfolding three_manager_def by (intro reach_add_many reach_new)
  have contents: "mset (map snd (earthquakes three_manager)) = {#?e1, ?e2, ?e3#}"
    by (simp add: three_manager_eq)
  have labels: "categorized ?e1" "categorized ?e2" "categorized ?e3"
    by (simp_all add: categorized_def)
  have times: "Time ?e1 < Time ?e2" "Time ?e2 < Time ?e3"
    by (simp_all add: quake_def)
  note claim = queries_labelled_and_sorted
    [of "Some fixture_regions" three_manager "''Pacifico''" "''local''" 0 4 ?e1 ?e2 ?e3]
  from claim contents labels times have "GetAll three_manager = [?e3, ?e2, ?e1]"
    by blast
  then have "map ID (GetAll three_manager) = [''t3'', ''t2'', ''t1'']"
    and "map Time (GetAll three_manager) = [3, 2, 1]"
    by (simp_all add: quake_def)
  moreover from claim reach have "list_all categorized (GetByOceano three_manager ''Pacifico'')"
    unfolding list_all_iff by blast
  moreover have "map fst (earthquakes three_manager) = [''t2'', ''t3'', ''t1'']"
    by (simp add: three_manager_eq)
  ultimately show ?thesis
    using reach by blast
qed

section \<open>Broadcast\<close>

lemma filter_removeAll_conj:
  "filter P (removeAll c xs) = filter (\<lambda>x. x \<noteq> c \<and> P x) xs"
  by (induction xs) auto

lemma Run_broadcast_loop_result:
  "distinct cs \<Longrightarrow> list_all (\<lambda>c. \<not> closed (send h c)) cs \<Longrightarrow>
   Run_broadcast_loop message cs h =
     Inr (h\<lparr>clients := filter (\<lambda>c. c \<notin> set cs \<or> has_room h c) (clients h),
            send := (\<lambda>c. if c \<in> set cs
                          then (if has_room h c
                                then (send h c)\<lparr>buffer := buffer (send h c) @ [message]\<rparr>
                                else (send h c)\<lparr>closed := True\<rparr>)
                          else send h c)\<rparr>)"
proof (induction cs arbitrary: h)
  case Nil
  then show ?case by simp
next
  case (Cons c cs)
  from Cons.prems have fresh: "c \<notin> set cs" and rest: "distinct cs"
    and c_open: "\<not> closed (send h c)" and cs_open: "list_all (\<lambda>c. \<not> closed (send h c)) cs"
    by simp_all
  show ?case
  proof (cases "has_room h c")
    case True
    let ?h1 = "h\<lparr>send := (send h)(c := (send h c)\<lparr>buffer := buffer (send h c) @ [message]\<rparr>)\<rparr>"
    have open1: "list_all (\<lambda>c. \<not> closed (send ?h1 c)) cs"
      using cs_open fresh by (auto simp: list_all_iff)
    have room1: "has_room ?h1 c' = has_room h c'" if "c' \<in> set cs" for c'
      using that fresh by (auto simp: has_room_def)
    have send1: "send ?h1 c' = send h c'" if "c' \<in> set cs" for c'
      using that fresh by auto
    have step: "Run_broadcast_loop message (c # cs) h = Run_broadcast_loop message cs ?h1"
      using True c_open by (simp add: has_room_def)
    have "filter (\<lambda>c'. c' \<notin> set cs \<or> has_room ?h1 c') (clients h)
          = filter (\<lambda>c'. c' \<notin> set (c # cs) \<or> has_room h c') (clients h)"
      using True room1 by (intro filter_cong) auto
    moreover have "(\<lambda>c'. if c' \<in> set cs
                          then (if has_room ?h1 c'
                                then (send ?h1 c')\<lparr>buffer := buffer (send ?h1 c') @ [message]\<rparr>
                                else (send ?h1 c')\<lparr>closed := True\<rparr>)
                          else send ?h1 c')
        = (\<lambda>c'. if c' \<in> set (c # cs)
                          then (if has_room h c'
                                then (send h c')\<lparr>buffer := buffer (send h c') @ [message]\<rparr>
                                else (send h c')\<lparr>closed := True\<rparr>)
                          else send h c')"
      using True fresh room1 send1 by (auto simp: fun_eq_iff)
    ultimately show ?thesis
      unfolding step Cons.IH [OF rest open1] by simp
  next
    case False
    let ?h1 = "h\<lparr>send := (send h)(c := (send h c)\<lparr>closed := True\<rparr>),
                 clients := removeAll c (clients h)\<rparr>"
    have open1: "list_all (\<lambda>c. \<not> closed (send ?h1 c)) cs"
      using cs_open fresh by (auto simp: list_all_iff)
    have room1: "has_room ?h1 c' = has_room h c'" if "c' \<in> set cs" for c'
      using that fresh by (auto simp: has_room_def)
    have send1: "send ?h1 c' = send h c'" if "c' \<in> set cs" for c'
      using that fresh by auto
    have step: "Run_broadcast_loop message (c # cs) h = Run_broadcast_loop message cs ?h1"
      using False c_open by (simp add: has_room_def)
    have "filter (\<lambda>c'. c' \<notin> set cs \<or> has_room ?h1 c') (removeAll c (clients h))
          = filter (\<lambda>c'. c' \<notin> set (c # cs) \<or> has_room h c') (clients h)"
      unfolding filter_removeAll_conj
      using False room1 by (intro filter_cong) auto
    moreover have "(\<lambda>c'. if c' \<in> set cs
                          then (if has_room ?h1 c'
                                then (send ?h1 c')\<lparr>buffer := buffer (send ?h1 c') @ [message]\<rparr>
                                else (send ?h1 c')\<lparr>closed := True\<rparr>)
                          else send ?h1 c')
        = (\<lambda>c'. if c' \<in> set (c # cs)
                          then (if has_room h c'
                                then (send h c')\<lparr>buffer := buffer (send h c') @ [message]\<rparr>
                                else (send h c')\<lparr>closed := True\<rparr>)
                          else send h c')"
      using False fresh room1 send1 by (auto simp: fun_eq_iff)
    ultimately show ?thesis
      unfolding step Cons.IH [OF rest open1] by simp
  qed
qed


lemma Run_broadcast_loop_all:
  assumes "hub_inv h"
  shows "Run_broadcast_loop message (clients h) h = Inr (spec_broadcast message h)"
proof -
  from assms have "distinct (clients h)" and "list_all (\<lambda>c. \<not> closed (send h c)) (clients h)"
    by (simp_all add: hub_inv_def)
  then have "Run_broadcast_loop message (clients h) h =
     Inr (h\<lparr>clients := filter (\<lambda>c. c \<notin> set (clients h) \<or> has_room h c) (clients h),
            send := (\<lambda>c. if c \<in> set (clients h)
                          then (if has_room h c
                                then (send h c)\<lparr>buffer := buffer (send h c) @ [message]\<rparr>
                                else (send h c)\<lparr>closed := True\<rparr>)
                          else send h c)\<rparr>)"
    by (rule Run_broadcast_loop_result)
  moreover have "filter (\<lambda>c. c \<notin> set (clients h) \<or> has_room h c) (clients h)
                   = filter (has_room h) (clients h)"
    by (intro filter_cong) auto
  ultimately show ?thesis
    by (simp add: spec_broadcast_def)
qed

lemma hub_inv_dequeue: "hub_inv (h\<lparr>broadcast := q\<rparr>) = hub_inv h"
  by (simp add: hub_inv_def)

lemma Run_broadcast_step:
  assumes "hub_inv h"
  shows "Run_broadcast (h\<lparr>broadcast := payload # rest\<rparr>)
           = Some (Inr (spec_broadcast payload (h\<lparr>broadcast := rest\<rparr>)))"
proof -
  have "hub_inv (h\<lparr>broadcast := rest\<rparr>)"
    using assms by (simp add: hub_inv_dequeue)
  from Run_broadcast_loop_all [OF this, of payload] show ?thesis
    by (simp add: Run_broadcast_def)
qed

lemma hub_inv_spec_broadcast:
  assumes "hub_inv h"
  shows "hub_inv (spec_broadcast payload h)"
  using assms by (auto simp: hub_inv_def spec_broadcast_def list_all_iff)

lemma hub_reachable_inv: "hub_reachable h \<Longrightarrow> hub_inv h"
proof (induction rule: hub_reachable.induct)
  case (hub_new heap)
  show ?case by (simp add: hub_inv_def NewHub_def)
next
  case (hub_serve h client)
  then show ?case
    by (auto simp: hub_inv_def ServeWs_def Run_register_def list_all_iff)
next
  case (hub_unregister h client h')
  then show ?case
    by (auto simp: hub_inv_def Run_unregister_def list_all_iff distinct_removeAll
        split: if_splits)
next
  case (hub_broadcast h h')
  then obtain payload rest where queue: "broadcast h = payload # rest"
    by (cases "broadcast h") (simp_all add: Run_broadcast_def)
  then have "h = h\<lparr>broadcast := payload # rest\<rparr>"
    by simp
  with Run_broadcast_step [OF hub_broadcast.IH, of payload rest] hub_broadcast.hyps(2)
  have "h' = spec_broadcast payload (h\<lparr>broadcast := rest\<rparr>)"
    by simp
  with hub_broadcast.IH show ?case
    by (simp add: hub_inv_spec_broadcast hub_inv_dequeue)
next
  case (hub_enqueue h json_Marshal eq h')
  then show ?case
    by (auto simp: hub_inv_def BroadcastEarthquake_def Let_def split: option.splits if_splits)
next
  case (hub_deliver h client payload rest)
  then show ?case
    by (auto simp: hub_inv_def list_all_iff)
qed

text \<open>
  Claim C9.  In a hub whose active sessions are distinct and have open queues (every
  reachable hub, by \<open>hub_reachable_inv\<close>), with the envelope
  \<open>{type: "new_earthquake", data: eq}\<close> serialized to \<open>data\<close>: \<^verbatim>\<open>BroadcastEarthquake\<close>
  queues \<open>data\<close> for the control loop, and the control loop's broadcast step returns
  without a panic the state in which every active session with room has \<open>data\<close> appended
  to its queue and is still active, every active session with a full queue is out of the
  active set with its queue closed and otherwise as it was, and no other session is
  touched.
\<close>

theorem broadcast_isolates_full_sessions:
  assumes "hub_inv h"
    and "json_Marshal \<lparr>Type = ''new_earthquake'', Data = eq\<rparr> = Some data"
  shows "(length (broadcast h) < 256
           \<longrightarrow> BroadcastEarthquake json_Marshal eq h = Some (h\<lparr>broadcast := broadcast h @ [data]\<rparr>))
    \<and> Run_broadcast (h\<lparr>broadcast := data # rest\<rparr>)
         = Some (Inr (spec_broadcast data (h\<lparr>broadcast := rest\<rparr>)))
    \<and> (\<forall>c \<in> set (clients h).
          if length (buffer (send h c)) < 256
          then c \<in> set (clients (spec_broadcast data h))
               \<and> send (spec_broadcast data h) c
                   = (send h c)\<lparr>buffer := buffer (send h c) @ [data]\<rparr>
          else c \<notin> set (clients (spec_broadcast data h))
               \<and> send (spec_broadcast data h) c = (send h c)\<lparr>closed := True\<rparr>)
    \<and> (\<forall>c. c \<notin> set (clients h)
          \<longrightarrow> c \<notin> set (clients (spec_broadcast data h))
              \<and> send (spec_broadcast data h) c = send h c)"
proof -
  have "length (broadcast h) < 256
           \<longrightarrow> BroadcastEarthquake json_Marshal eq h = Some (h\<lparr>broadcast := broadcast h @ [data]\<rparr>)"
    by (simp add: BroadcastEarthquake_def assms(2) broadcast_cap_def)
  moreover note Run_broadcast_step [OF assms(1), of data rest]
  moreover have "\<forall>c \<in> set (clients h).
          if length (buffer (send h c)) < 256
          then c \<in> set (clients (spec_broadcast data h))
               \<and> send (spec_broadcast data h) c
                   = (send h c)\<lparr>buffer := buffer (send h c) @ [data]\<rparr>
          else c \<notin> set (clients (spec_broadcast data h))
               \<and> send (spec_broadcast data h) c = (send h c)\<lparr>closed := True\<rparr>"
    by (simp add: spec_broadcast_def has_room_def send_cap_def)
  moreover have "\<forall>c. c \<notin> set (clients h)
          \<longrightarrow> c \<notin> set (clients (spec_broadcast data h))
              \<and> send (spec_broadcast data h) c = send h c"
    by (simp add: spec_broadcast_def)
  ultimately show ?thesis
    by blast
qed

theorem broadcast_isolates_full_sessions_witness:
  "hub_inv three_sessions
   \<and> fixture_marshal \<lparr>Type = ''new_earthquake'', Data = quake ''a'' 5 5 0\<rparr> = Some ''new_earthquake:a''
   \<and> BroadcastEarthquake fixture_marshal (quake ''a'' 5 5 0) three_sessions
       = Some (three_sessions\<lparr>broadcast := [''new_earthquake:a'']\<rparr>)
   \<and> Run_broadcast (three_sessions\<lparr>broadcast := [''new_earthquake:a'']\<rparr>)
       = Some (Inr (spec_broadcast ''new_earthquake:a'' three_sessions))
   \<and> clients (spec_broadcast ''new_earthquake:a'' three_sessions) = [1, 3]
   \<and> send (spec_broadcast ''new_earthquake:a'' three_sessions) 1
       = \<lparr>buffer = [''new_earthquake:a''], closed = False\<rparr>
   \<and> send (spec_broadcast ''new_earthquake:a'' three_sessions) 2
       = \<lparr>buffer = replicate 256 ''backlog'', closed = True\<rparr>
   \<and> send (spec_broadcast ''new_earthquake:a'' three_sessions) 3
       = \<lparr>buffer = [''new_earthquake:a''], closed = False\<rparr>"
proof -
  have inv: "hub_inv three_sessions"
    by (simp add: hub_inv_def three_sessions_def)
  have payload: "fixture_marshal \<lparr>Type = ''new_earthquake'', Data = quake ''a'' 5 5 0\<rparr>
                   = Some ''new_earthquake:a''"
    by (simp add: fixture_marshal_def quake_def)
  have idle: "broadcast three_sessions = []" "three_sessions\<lparr>broadcast := []\<rparr> = three_sessions"
    by (simp_all add: three_sessions_def)
  note claim = broadcast_isolates_full_sessions
    [where json_Marshal = fixture_marshal and eq = "quake ''a'' 5 5 0" and rest = "[]",
     OF inv payload]
  from claim have "BroadcastEarthquake fixture_marshal (quake ''a'' 5 5 0) three_sessions
       = Some (three_sessions\<lparr>broadcast := [''new_earthquake:a'']\<rparr>)"
    by (simp add: idle)
  moreover from claim have "Run_broadcast (three_sessions\<lparr>broadcast := [''new_earthquake:a'']\<rparr>)
       = Some (Inr (spec_broadcast ''new_earthquake:a'' three_sessions))"
    by (simp add: idle)
  moreover have "clients (spec_broadcast ''new_earthquake:a'' three_sessions) = [1, 3]"
    by (simp add: spec_broadcast_def three_sessions_def has_room_def send_cap_def)
  moreover have "send (spec_broadcast ''new_earthquake:a'' three_sessions) 1
       = \<lparr>buffer = [''new_earthquake:a''], closed = False\<rparr>"
    and "send (spec_broadcast ''new_earthquake:a'' three_sessions) 2
       = \<lparr>buffer = replicate 256 ''backlog'', closed = True\<rparr>"
    and "send (spec_broadcast ''new_earthquake:a'' three_sessions) 3
       = \<lparr>buffer = [''new_earthquake:a''], closed = False\<rparr>"
    by (simp_all add: spec_broadcast_def three_sessions_def has_room_def send_cap_def)
  ultimately show ?thesis
    using inv payload by blast
qed

end
